theory Spec2Isabelle
  imports Main "HOL-Library.Word" "HOL-Library.Monad_Syntax"
begin

unbundle bit_operations_syntax

section \<open>Constants of headers that the two source files include\<close>

text \<open>
  \<^verbatim>\<open>engines/ags/events.cpp\<close> and \<^verbatim>\<open>gui/widgets/editable.cpp\<close> name enumerators
  and macros that are declared in headers (\<^verbatim>\<open>common/keyboard.h\<close>,
  \<^verbatim>\<open>ags/engine/ac/keycode.h\<close>, \<^verbatim>\<open>ags/events.h\<close>): the enumerators of
  \<^verbatim>\<open>Common::KeyCode\<close>, the modifier bits \<^verbatim>\<open>Common::KBD_*\<close>, the enumerators
  \<^verbatim>\<open>AGS3::__allegro_KEY_*\<close> and the macro \<^verbatim>\<open>EXTENDED_KEY_CODE\<close>. Their values are
  a parameter \<open>H\<close> of every function below: \<open>Common H KEYCODE_a\<close> is the value of
  \<^verbatim>\<open>Common::KEYCODE_a\<close>, \<open>AGS3 H allegro_KEY_A\<close> the value of
  \<^verbatim>\<open>AGS3::__allegro_KEY_A\<close>. A \<^verbatim>\<open>Common::KeyCode\<close> is the integer of its enumerator,
  since the code compares keycodes and subtracts them.
\<close>

datatype (plugins only: ) KeyName =
    KEYCODE_INVALID | KEYCODE_BACKSPACE | KEYCODE_TAB | KEYCODE_RETURN
  | KEYCODE_PAUSE | KEYCODE_ESCAPE | KEYCODE_SPACE | KEYCODE_QUOTE
  | KEYCODE_ASTERISK | KEYCODE_COMMA | KEYCODE_MINUS | KEYCODE_SLASH
  | KEYCODE_0 | KEYCODE_9 | KEYCODE_COLON | KEYCODE_SEMICOLON
  | KEYCODE_EQUALS | KEYCODE_LEFTBRACKET | KEYCODE_BACKSLASH | KEYCODE_RIGHTBRACKET
  | KEYCODE_a | KEYCODE_c | KEYCODE_e | KEYCODE_v | KEYCODE_z
  | KEYCODE_TILDE | KEYCODE_DELETE | KEYCODE_KP0 | KEYCODE_KP1
  | KEYCODE_KP2 | KEYCODE_KP3 | KEYCODE_KP4 | KEYCODE_KP5
  | KEYCODE_KP6 | KEYCODE_KP7 | KEYCODE_KP8 | KEYCODE_KP9
  | KEYCODE_KP_PERIOD | KEYCODE_KP_DIVIDE | KEYCODE_KP_MINUS | KEYCODE_KP_PLUS
  | KEYCODE_KP_ENTER | KEYCODE_UP | KEYCODE_DOWN | KEYCODE_RIGHT
  | KEYCODE_LEFT | KEYCODE_INSERT | KEYCODE_HOME | KEYCODE_END
  | KEYCODE_PAGEUP | KEYCODE_PAGEDOWN | KEYCODE_F1 | KEYCODE_F2
  | KEYCODE_F3 | KEYCODE_F4 | KEYCODE_F5 | KEYCODE_F6
  | KEYCODE_F7 | KEYCODE_F8 | KEYCODE_F9 | KEYCODE_F10
  | KEYCODE_F11 | KEYCODE_F12 | KEYCODE_NUMLOCK | KEYCODE_CAPSLOCK
  | KEYCODE_SCROLLOCK | KEYCODE_RSHIFT | KEYCODE_LSHIFT | KEYCODE_RCTRL
  | KEYCODE_LCTRL | KEYCODE_RALT | KEYCODE_LALT | KEYCODE_LSUPER
  | KEYCODE_RSUPER | KEYCODE_PRINT

datatype (plugins only: ) AllegroName =
    allegro_KEY_A | allegro_KEY_0 | allegro_KEY_0_PAD | allegro_KEY_F1
  | allegro_KEY_ESC | allegro_KEY_TILDE | allegro_KEY_MINUS | allegro_KEY_EQUALS
  | allegro_KEY_BACKSPACE | allegro_KEY_TAB | allegro_KEY_OPENBRACE | allegro_KEY_CLOSEBRACE
  | allegro_KEY_ENTER | allegro_KEY_COLON | allegro_KEY_QUOTE | allegro_KEY_BACKSLASH
  | allegro_KEY_COMMA | allegro_KEY_SLASH | allegro_KEY_SPACE | allegro_KEY_INSERT
  | allegro_KEY_DEL | allegro_KEY_HOME | allegro_KEY_END | allegro_KEY_PGUP
  | allegro_KEY_PGDN | allegro_KEY_LEFT | allegro_KEY_RIGHT | allegro_KEY_UP
  | allegro_KEY_DOWN | allegro_KEY_SLASH_PAD | allegro_KEY_ASTERISK | allegro_KEY_MINUS_PAD
  | allegro_KEY_PLUS_PAD | allegro_KEY_DEL_PAD | allegro_KEY_ENTER_PAD | allegro_KEY_PRTSCR
  | allegro_KEY_PAUSE | allegro_KEY_SEMICOLON | allegro_KEY_LSHIFT | allegro_KEY_RSHIFT
  | allegro_KEY_LCONTROL | allegro_KEY_RCONTROL | allegro_KEY_ALT | allegro_KEY_SCRLOCK
  | allegro_KEY_NUMLOCK | allegro_KEY_CAPSLOCK | allegro_KEY_MAX

record hdr =
  Common :: "KeyName \<Rightarrow> int"
  AGS3 :: "AllegroName \<Rightarrow> int"
  KBD_CTRL :: int
  KBD_ALT :: int
  KBD_SHIFT :: int
  KBD_NUM :: int
  EXTENDED_KEY_CODE :: int

section \<open>The input translator: \<^verbatim>\<open>engines/ags/events.cpp\<close>\<close>

subsection \<open>Data\<close>

text \<open>\<^verbatim>\<open>Common::KeyState\<close>: keycode, 16-bit character code, 8-bit modifier flags.\<close>

record KeyState =
  keycode :: int
  ascii :: "16 word"
  flags :: "8 word"

text \<open>
  \<^verbatim>\<open>Common::EventType\<close>: the enumerators \<^verbatim>\<open>pollEvents\<close> names, and \<open>EVENT_OTHER n\<close>
  for every other one (they all take the \<^verbatim>\<open>default\<close> branch).
\<close>

datatype EventType =
    EVENT_QUIT
  | EVENT_RETURN_TO_LAUNCHER
  | EVENT_JOYAXIS_MOTION
  | EVENT_JOYBUTTON_DOWN
  | EVENT_JOYBUTTON_UP
  | EVENT_KEYDOWN
  | EVENT_KEYUP
  | EVENT_MOUSEMOVE
  | EVENT_OTHER nat

record JoystickState =
  axis :: "8 word"
  position :: "16 word"
  button :: "8 word"

record Event =
  etype :: EventType
  kbd :: KeyState
  joystick :: JoystickState
  mouse :: "int \<times> int"

text \<open>
  The members of \<^verbatim>\<open>EventsManager\<close> (the leading underscore of a member's name is
  dropped) and the three globals a quit event sets. A \<^verbatim>\<open>Common::Queue\<close> is a list:
  \<^verbatim>\<open>push\<close> appends, \<^verbatim>\<open>pop\<close> takes the head, \<^verbatim>\<open>back()\<close> is the last element.
\<close>

record EventsManager =
  keys :: "bool list"
  pendingKeys :: "KeyState list"
  pendingEvents :: "Event list"
  joystickAxis :: "16 word list"
  joystickButton :: "bool list"
  want_exit :: bool
  abort_engine :: bool
  check_dynamic_sprites_at_exit :: bool

text \<open>
  The constructor: \<^verbatim>\<open>_keys.resize(__allegro_KEY_MAX)\<close> value-initialises the new
  elements, the two joystick arrays of 32 are filled with 0. The globals are not the
  constructor's; they are taken as given.
\<close>

definition EventsManager_init :: "hdr \<Rightarrow> bool \<Rightarrow> bool \<Rightarrow> bool \<Rightarrow> EventsManager" where
  "EventsManager_init H we ae cd =
     \<lparr> keys = replicate (nat (AGS3 H allegro_KEY_MAX)) False,
       pendingKeys = [],
       pendingEvents = [],
       joystickAxis = replicate 32 0,
       joystickButton = replicate 32 False,
       want_exit = we,
       abort_engine = ae,
       check_dynamic_sprites_at_exit = cd \<rparr>"

subsection \<open>Key classification and the scancode table\<close>

definition isModifierKey :: "hdr \<Rightarrow> int \<Rightarrow> bool" where
  "isModifierKey H kc \<longleftrightarrow>
     kc = Common H KEYCODE_LCTRL \<or> kc = Common H KEYCODE_LALT
   \<or> kc = Common H KEYCODE_RCTRL \<or> kc = Common H KEYCODE_RALT
   \<or> kc = Common H KEYCODE_LSHIFT \<or> kc = Common H KEYCODE_RSHIFT
   \<or> kc = Common H KEYCODE_LSUPER \<or> kc = Common H KEYCODE_RSUPER
   \<or> kc = Common H KEYCODE_CAPSLOCK \<or> kc = Common H KEYCODE_NUMLOCK
   \<or> kc = Common H KEYCODE_SCROLLOCK"

text \<open>The array \<^verbatim>\<open>EXTENDED_KEYS\<close> of \<^verbatim>\<open>isExtendedKey\<close>, without its terminator.\<close>

definition EXTENDED_KEYS :: "hdr \<Rightarrow> int list" where
  "EXTENDED_KEYS H = map (Common H)
     [KEYCODE_F1, KEYCODE_F2, KEYCODE_F3, KEYCODE_F4, KEYCODE_F5, KEYCODE_F6, KEYCODE_F7, KEYCODE_F8, KEYCODE_F9,
      KEYCODE_F10, KEYCODE_F11, KEYCODE_F12,
      KEYCODE_KP0, KEYCODE_KP1, KEYCODE_KP2, KEYCODE_KP3, KEYCODE_KP4, KEYCODE_KP5, KEYCODE_KP6, KEYCODE_KP7, KEYCODE_KP8,
      KEYCODE_KP9, KEYCODE_KP_PERIOD,
      KEYCODE_INSERT, KEYCODE_DELETE, KEYCODE_HOME, KEYCODE_END, KEYCODE_PAGEUP, KEYCODE_PAGEDOWN,
      KEYCODE_LEFT, KEYCODE_RIGHT, KEYCODE_UP, KEYCODE_DOWN]"

text \<open>
  The loop of \<^verbatim>\<open>isExtendedKey\<close> over the array and its terminator
  \<^verbatim>\<open>KEYCODE_INVALID\<close>: it stops at the first element equal to the terminator, and
  returns true at the first element equal to the keycode.
\<close>

fun scanKeys :: "int \<Rightarrow> int \<Rightarrow> int list \<Rightarrow> bool" where
  "scanKeys stop kc [] = False"
| "scanKeys stop kc (k # ks) =
     (if k = stop then False else if kc = k then True else scanKeys stop kc ks)"

definition isExtendedKey :: "hdr \<Rightarrow> int \<Rightarrow> bool" where
  "isExtendedKey H kc =
     scanKeys (Common H KEYCODE_INVALID) kc (EXTENDED_KEYS H @ [Common H KEYCODE_INVALID])"

text \<open>The \<^verbatim>\<open>switch\<close> of \<^verbatim>\<open>getScancode\<close>, a case a line, in the source's order.\<close>

definition getScancode_switch :: "hdr \<Rightarrow> int \<Rightarrow> int" where
  "getScancode_switch H kc =
    (if kc = Common H KEYCODE_ESCAPE then AGS3 H allegro_KEY_ESC
     else if kc = Common H KEYCODE_TILDE then AGS3 H allegro_KEY_TILDE
     else if kc = Common H KEYCODE_MINUS then AGS3 H allegro_KEY_MINUS
     else if kc = Common H KEYCODE_EQUALS then AGS3 H allegro_KEY_EQUALS
     else if kc = Common H KEYCODE_BACKSPACE then AGS3 H allegro_KEY_BACKSPACE
     else if kc = Common H KEYCODE_TAB then AGS3 H allegro_KEY_TAB
     else if kc = Common H KEYCODE_LEFTBRACKET then AGS3 H allegro_KEY_OPENBRACE
     else if kc = Common H KEYCODE_RIGHTBRACKET then AGS3 H allegro_KEY_CLOSEBRACE
     else if kc = Common H KEYCODE_RETURN then AGS3 H allegro_KEY_ENTER
     else if kc = Common H KEYCODE_COLON then AGS3 H allegro_KEY_COLON
     else if kc = Common H KEYCODE_QUOTE then AGS3 H allegro_KEY_QUOTE
     else if kc = Common H KEYCODE_BACKSLASH then AGS3 H allegro_KEY_BACKSLASH
     else if kc = Common H KEYCODE_COMMA then AGS3 H allegro_KEY_COMMA
     else if kc = Common H KEYCODE_SLASH then AGS3 H allegro_KEY_SLASH
     else if kc = Common H KEYCODE_SPACE then AGS3 H allegro_KEY_SPACE
     else if kc = Common H KEYCODE_INSERT then AGS3 H allegro_KEY_INSERT
     else if kc = Common H KEYCODE_DELETE then AGS3 H allegro_KEY_DEL
     else if kc = Common H KEYCODE_HOME then AGS3 H allegro_KEY_HOME
     else if kc = Common H KEYCODE_END then AGS3 H allegro_KEY_END
     else if kc = Common H KEYCODE_PAGEUP then AGS3 H allegro_KEY_PGUP
     else if kc = Common H KEYCODE_PAGEDOWN then AGS3 H allegro_KEY_PGDN
     else if kc = Common H KEYCODE_LEFT then AGS3 H allegro_KEY_LEFT
     else if kc = Common H KEYCODE_RIGHT then AGS3 H allegro_KEY_RIGHT
     else if kc = Common H KEYCODE_UP then AGS3 H allegro_KEY_UP
     else if kc = Common H KEYCODE_DOWN then AGS3 H allegro_KEY_DOWN
     else if kc = Common H KEYCODE_KP_DIVIDE then AGS3 H allegro_KEY_SLASH_PAD
     else if kc = Common H KEYCODE_ASTERISK then AGS3 H allegro_KEY_ASTERISK
     else if kc = Common H KEYCODE_KP_MINUS then AGS3 H allegro_KEY_MINUS_PAD
     else if kc = Common H KEYCODE_KP_PLUS then AGS3 H allegro_KEY_PLUS_PAD
     else if kc = Common H KEYCODE_KP_PERIOD then AGS3 H allegro_KEY_DEL_PAD
     else if kc = Common H KEYCODE_KP_ENTER then AGS3 H allegro_KEY_ENTER_PAD
     else if kc = Common H KEYCODE_PRINT then AGS3 H allegro_KEY_PRTSCR
     else if kc = Common H KEYCODE_PAUSE then AGS3 H allegro_KEY_PAUSE
     else if kc = Common H KEYCODE_SEMICOLON then AGS3 H allegro_KEY_SEMICOLON
     else if kc = Common H KEYCODE_LSHIFT then AGS3 H allegro_KEY_LSHIFT
     else if kc = Common H KEYCODE_RSHIFT then AGS3 H allegro_KEY_RSHIFT
     else if kc = Common H KEYCODE_LCTRL then AGS3 H allegro_KEY_LCONTROL
     else if kc = Common H KEYCODE_RCTRL then AGS3 H allegro_KEY_RCONTROL
     else if kc = Common H KEYCODE_LALT then AGS3 H allegro_KEY_ALT
     else if kc = Common H KEYCODE_RALT then AGS3 H allegro_KEY_ALT
     else if kc = Common H KEYCODE_SCROLLOCK then AGS3 H allegro_KEY_SCRLOCK
     else if kc = Common H KEYCODE_NUMLOCK then AGS3 H allegro_KEY_NUMLOCK
     else if kc = Common H KEYCODE_CAPSLOCK then AGS3 H allegro_KEY_CAPSLOCK
     else 0)"

definition getScancode :: "hdr \<Rightarrow> int \<Rightarrow> int" where
  "getScancode H kc =
    (if Common H KEYCODE_a \<le> kc \<and> kc \<le> Common H KEYCODE_z
       then kc - Common H KEYCODE_a + AGS3 H allegro_KEY_A
     else if Common H KEYCODE_0 \<le> kc \<and> kc \<le> Common H KEYCODE_9
       then kc - Common H KEYCODE_0 + AGS3 H allegro_KEY_0
     else if Common H KEYCODE_KP0 \<le> kc \<and> kc \<le> Common H KEYCODE_KP9
       then kc - Common H KEYCODE_KP0 + AGS3 H allegro_KEY_0_PAD
     else if Common H KEYCODE_F1 \<le> kc \<and> kc \<le> Common H KEYCODE_F12
       then kc - Common H KEYCODE_F1 + AGS3 H allegro_KEY_F1
     else getScancode_switch H kc)"

subsection \<open>Operations\<close>

text \<open>
  \<^verbatim>\<open>_keys[scancode] = isDown\<close> goes through \<^verbatim>\<open>Common::Array::operator[]\<close>, which
  asserts that the index is below the size; a failed assertion ends the program and
  is the result \<open>None\<close>.
\<close>

definition updateKeys :: "hdr \<Rightarrow> KeyState \<Rightarrow> bool \<Rightarrow> EventsManager \<Rightarrow> EventsManager option" where
  "updateKeys H keyState isDown s =
     (let scancode = getScancode H (keycode keyState) in
      if scancode \<noteq> 0 then
        (if 0 \<le> scancode \<and> nat scancode < length (keys s)
         then Some (s\<lparr>keys := (keys s)[nat scancode := isDown]\<rparr>)
         else None)
      else Some s)"

text \<open>The body of the \<^verbatim>\<open>while\<close> loop of \<^verbatim>\<open>pollEvents\<close>, for one event.\<close>

definition handleEvent :: "hdr \<Rightarrow> Event \<Rightarrow> EventsManager \<Rightarrow> EventsManager option" where
  "handleEvent H e s =
    (case etype e of
       EVENT_QUIT \<Rightarrow>
         Some (s\<lparr>want_exit := True, abort_engine := True,
                 check_dynamic_sprites_at_exit := False\<rparr>)
     | EVENT_RETURN_TO_LAUNCHER \<Rightarrow>
         Some (s\<lparr>want_exit := True, abort_engine := True,
                 check_dynamic_sprites_at_exit := False\<rparr>)
     | EVENT_JOYAXIS_MOTION \<Rightarrow>
         (if axis (joystick e) < 32
          then Some (s\<lparr>joystickAxis :=
                 (joystickAxis s)[unat (axis (joystick e)) := position (joystick e)]\<rparr>)
          else None)
     | EVENT_JOYBUTTON_DOWN \<Rightarrow>
         (if button (joystick e) < 32
          then Some (s\<lparr>joystickButton :=
                 (joystickButton s)[unat (button (joystick e)) := True]\<rparr>)
          else None)
     | EVENT_JOYBUTTON_UP \<Rightarrow>
         (if button (joystick e) < 32
          then Some (s\<lparr>joystickButton :=
                 (joystickButton s)[unat (button (joystick e)) := False]\<rparr>)
          else None)
     | EVENT_KEYDOWN \<Rightarrow>
         (case updateKeys H (kbd e) True s of
            None \<Rightarrow> None
          | Some s1 \<Rightarrow>
              if \<not> isModifierKey H (keycode (kbd e))
              then Some (s1\<lparr>pendingKeys := pendingKeys s1 @ [kbd e]\<rparr>)
              else Some s1)
     | EVENT_KEYUP \<Rightarrow> updateKeys H (kbd e) False s
     | _ \<Rightarrow>
         (if etype e = EVENT_MOUSEMOVE \<and> pendingEvents s \<noteq> []
               \<and> etype (last (pendingEvents s)) = EVENT_MOUSEMOVE
          then Some (s\<lparr>pendingEvents := butlast (pendingEvents s) @ [e]\<rparr>)
          else Some (s\<lparr>pendingEvents := pendingEvents s @ [e]\<rparr>)))"

text \<open>
  \<^verbatim>\<open>pollEvents\<close>: the loop runs as long as the host's \<^verbatim>\<open>pollEvent\<close> delivers an
  event. The events the host delivers during one call are the list \<open>evs\<close>.
\<close>

fun pollEvents :: "hdr \<Rightarrow> Event list \<Rightarrow> EventsManager \<Rightarrow> EventsManager option" where
  "pollEvents H [] s = Some s"
| "pollEvents H (e # evs) s =
     (case handleEvent H e s of None \<Rightarrow> None | Some s1 \<Rightarrow> pollEvents H evs s1)"

definition keypressed :: "hdr \<Rightarrow> Event list \<Rightarrow> EventsManager \<Rightarrow> (bool \<times> EventsManager) option" where
  "keypressed H evs s =
     (case pollEvents H evs s of
        None \<Rightarrow> None
      | Some s1 \<Rightarrow> Some (pendingKeys s1 \<noteq> [], s1))"

text \<open>
  The encoding \<^verbatim>\<open>readKey\<close> computes for the key state it popped (the lines from
  \<^verbatim>\<open>int scancode = ...\<close> to \<^verbatim>\<open>return code\<close>). The flags and the character code are
  promoted to \<^verbatim>\<open>int\<close> before \<^verbatim>\<open>&\<close> and \<^verbatim>\<open>|\<close>.
\<close>

definition keyCode :: "hdr \<Rightarrow> KeyState \<Rightarrow> int" where
  "keyCode H keyState =
     (let scancode = getScancode H (keycode keyState);
          code = push_bit 8 scancode
      in if isExtendedKey H (keycode keyState) then code OR EXTENDED_KEY_CODE H
         else if uint (flags keyState) AND (KBD_CTRL H OR KBD_ALT H) = 0
           then code OR uint (ascii keyState)
         else code OR scancode)"

definition readKey :: "hdr \<Rightarrow> Event list \<Rightarrow> EventsManager \<Rightarrow> (int \<times> EventsManager) option" where
  "readKey H evs s =
     (case pollEvents H evs s of
        None \<Rightarrow> None
      | Some s1 \<Rightarrow>
          (case pendingKeys s1 of
             [] \<Rightarrow> Some (0, s1)
           | keyState # rest \<Rightarrow> Some (keyCode H keyState, s1\<lparr>pendingKeys := rest\<rparr>)))"

text \<open>
  \<^verbatim>\<open>readEvent\<close>: \<open>None\<close> inside the result stands for the default-constructed
  \<^verbatim>\<open>Common::Event()\<close> returned on an empty queue.
\<close>

definition readEvent :: "hdr \<Rightarrow> Event list \<Rightarrow> EventsManager \<Rightarrow> (Event option \<times> EventsManager) option" where
  "readEvent H evs s =
     (case pollEvents H evs s of
        None \<Rightarrow> None
      | Some s1 \<Rightarrow>
          (case pendingEvents s1 of
             [] \<Rightarrow> Some (None, s1)
           | e # rest \<Rightarrow> Some (Some e, s1\<lparr>pendingEvents := rest\<rparr>)))"

definition isKeyPressed :: "EventsManager \<Rightarrow> int \<Rightarrow> bool option" where
  "isKeyPressed s kc =
     (if 0 \<le> kc \<and> nat kc < length (keys s) then Some (keys s ! nat kc) else None)"

subsection \<open>Sequences of calls\<close>

text \<open>
  The public operations that poll, each with the events the host delivers during the
  call; \<open>calls\<close> runs a sequence of them and keeps the manager.
\<close>

datatype Call = PollEvents | KeyPressed | ReadKey | ReadEvent

definition call :: "hdr \<Rightarrow> Call \<Rightarrow> Event list \<Rightarrow> EventsManager \<Rightarrow> EventsManager option" where
  "call H c evs s =
     (case c of
        PollEvents \<Rightarrow> pollEvents H evs s
      | KeyPressed \<Rightarrow> map_option snd (keypressed H evs s)
      | ReadKey \<Rightarrow> map_option snd (readKey H evs s)
      | ReadEvent \<Rightarrow> map_option snd (readEvent H evs s))"

fun calls :: "hdr \<Rightarrow> (Call \<times> Event list) list \<Rightarrow> EventsManager \<Rightarrow> EventsManager option" where
  "calls H [] s = Some s"
| "calls H ((c, evs) # cs) s =
     (case call H c evs s of None \<Rightarrow> None | Some s1 \<Rightarrow> calls H cs s1)"

text \<open>
  \<open>n\<close> successive calls of \<^verbatim>\<open>readKey\<close>: the host has the events \<open>evs\<close> ready at the
  first call and delivers nothing afterwards. The result lists the codes returned.
\<close>

fun readKeys :: "hdr \<Rightarrow> nat \<Rightarrow> Event list \<Rightarrow> EventsManager \<Rightarrow> (int list \<times> EventsManager) option" where
  "readKeys H 0 evs s = Some ([], s)"
| "readKeys H (Suc n) evs s =
     (case readKey H evs s of
        None \<Rightarrow> None
      | Some (c, s1) \<Rightarrow>
          (case readKeys H n [] s1 of
             None \<Rightarrow> None
           | Some (cs, s2) \<Rightarrow> Some (c # cs, s2)))"

text \<open>Two mouse-move entries next to each other in a queue of events.\<close>

fun adjacentMoves :: "EventType list \<Rightarrow> bool" where
  "adjacentMoves (a # b # ts) \<longleftrightarrow>
     (a = EVENT_MOUSEMOVE \<and> b = EVENT_MOUSEMOVE) \<or> adjacentMoves (b # ts)"
| "adjacentMoves ts \<longleftrightarrow> False"

definition consecutiveMoves :: "Event list \<Rightarrow> bool" where
  "consecutiveMoves q = adjacentMoves (map etype q)"

subsection \<open>The rows of the scancode table\<close>

text \<open>
  The pairs (keycode, scancode) that \<^verbatim>\<open>getScancode\<close> is written to produce: a row for
  each keycode of the four ranges and a row for each \<^verbatim>\<open>case\<close> of the \<^verbatim>\<open>switch\<close>, but
  for \<^verbatim>\<open>case KEYCODE_RALT\<close>, whose scancode \<^verbatim>\<open>__allegro_KEY_ALT\<close> is that of
  \<^verbatim>\<open>case KEYCODE_LALT\<close> already.
\<close>

definition switchRows :: "hdr \<Rightarrow> (int \<times> int) list" where
  "switchRows H = map (\<lambda>(k, a). (Common H k, AGS3 H a))
    [(KEYCODE_ESCAPE, allegro_KEY_ESC), (KEYCODE_TILDE, allegro_KEY_TILDE),
     (KEYCODE_MINUS, allegro_KEY_MINUS), (KEYCODE_EQUALS, allegro_KEY_EQUALS),
     (KEYCODE_BACKSPACE, allegro_KEY_BACKSPACE), (KEYCODE_TAB, allegro_KEY_TAB),
     (KEYCODE_LEFTBRACKET, allegro_KEY_OPENBRACE),
     (KEYCODE_RIGHTBRACKET, allegro_KEY_CLOSEBRACE),
     (KEYCODE_RETURN, allegro_KEY_ENTER), (KEYCODE_COLON, allegro_KEY_COLON),
     (KEYCODE_QUOTE, allegro_KEY_QUOTE), (KEYCODE_BACKSLASH, allegro_KEY_BACKSLASH),
     (KEYCODE_COMMA, allegro_KEY_COMMA), (KEYCODE_SLASH, allegro_KEY_SLASH),
     (KEYCODE_SPACE, allegro_KEY_SPACE), (KEYCODE_INSERT, allegro_KEY_INSERT),
     (KEYCODE_DELETE, allegro_KEY_DEL), (KEYCODE_HOME, allegro_KEY_HOME),
     (KEYCODE_END, allegro_KEY_END), (KEYCODE_PAGEUP, allegro_KEY_PGUP),
     (KEYCODE_PAGEDOWN, allegro_KEY_PGDN), (KEYCODE_LEFT, allegro_KEY_LEFT),
     (KEYCODE_RIGHT, allegro_KEY_RIGHT), (KEYCODE_UP, allegro_KEY_UP),
     (KEYCODE_DOWN, allegro_KEY_DOWN), (KEYCODE_KP_DIVIDE, allegro_KEY_SLASH_PAD),
     (KEYCODE_ASTERISK, allegro_KEY_ASTERISK), (KEYCODE_KP_MINUS, allegro_KEY_MINUS_PAD),
     (KEYCODE_KP_PLUS, allegro_KEY_PLUS_PAD), (KEYCODE_KP_PERIOD, allegro_KEY_DEL_PAD),
     (KEYCODE_KP_ENTER, allegro_KEY_ENTER_PAD), (KEYCODE_PRINT, allegro_KEY_PRTSCR),
     (KEYCODE_PAUSE, allegro_KEY_PAUSE), (KEYCODE_SEMICOLON, allegro_KEY_SEMICOLON),
     (KEYCODE_LSHIFT, allegro_KEY_LSHIFT), (KEYCODE_RSHIFT, allegro_KEY_RSHIFT),
     (KEYCODE_LCTRL, allegro_KEY_LCONTROL), (KEYCODE_RCTRL, allegro_KEY_RCONTROL),
     (KEYCODE_LALT, allegro_KEY_ALT),
     (KEYCODE_SCROLLOCK, allegro_KEY_SCRLOCK), (KEYCODE_NUMLOCK, allegro_KEY_NUMLOCK),
     (KEYCODE_CAPSLOCK, allegro_KEY_CAPSLOCK)]"

definition rangeRows :: "hdr \<Rightarrow> (int \<times> int) list" where
  "rangeRows H =
     map (\<lambda>k. (k, k - Common H KEYCODE_a + AGS3 H allegro_KEY_A))
         [Common H KEYCODE_a .. Common H KEYCODE_z]
   @ map (\<lambda>k. (k, k - Common H KEYCODE_0 + AGS3 H allegro_KEY_0))
         [Common H KEYCODE_0 .. Common H KEYCODE_9]
   @ map (\<lambda>k. (k, k - Common H KEYCODE_KP0 + AGS3 H allegro_KEY_0_PAD))
         [Common H KEYCODE_KP0 .. Common H KEYCODE_KP9]
   @ map (\<lambda>k. (k, k - Common H KEYCODE_F1 + AGS3 H allegro_KEY_F1))
         [Common H KEYCODE_F1 .. Common H KEYCODE_F12]"

definition scancodeRows :: "hdr \<Rightarrow> (int \<times> int) list" where
  "scancodeRows H = rangeRows H @ switchRows H"


section \<open>The text field: \<^verbatim>\<open>gui/widgets/editable.cpp\<close>\<close>

subsection \<open>Strings\<close>

text \<open>
  A \<^verbatim>\<open>Common::U32String\<close> is a list of 32-bit characters. Its \<^verbatim>\<open>insertChar\<close>,
  \<^verbatim>\<open>deleteChar\<close>, \<^verbatim>\<open>setChar\<close> and \<^verbatim>\<open>operator[]\<close> assert that the position is
  in range; a failed assertion ends the program and is the result \<open>None\<close>. A
  position is an \<^verbatim>\<open>int\<close> converted to \<^verbatim>\<open>uint32\<close>, so a negative one is far out of
  range.
\<close>

type_synonym U32String = "32 word list"

definition insertChar :: "32 word \<Rightarrow> int \<Rightarrow> U32String \<Rightarrow> U32String option" where
  "insertChar c p str =
     (if 0 \<le> p \<and> nat p \<le> length str
      then Some (take (nat p) str @ c # drop (nat p) str) else None)"

definition deleteChar :: "int \<Rightarrow> U32String \<Rightarrow> U32String option" where
  "deleteChar p str =
     (if 0 \<le> p \<and> nat p < length str
      then Some (take (nat p) str @ drop (Suc (nat p)) str) else None)"

definition setChar :: "32 word \<Rightarrow> int \<Rightarrow> U32String \<Rightarrow> U32String option" where
  "setChar c p str =
     (if 0 \<le> p \<and> nat p < length str then Some (str[nat p := c]) else None)"

definition charAt :: "U32String \<Rightarrow> int \<Rightarrow> 32 word option" where
  "charAt str p = (if 0 \<le> p \<and> nat p < length str then Some (str ! nat p) else None)"

subsection \<open>State and collaborators\<close>

text \<open>
  The members of \<^verbatim>\<open>EditableWidget\<close> that the key handling reads or writes (without
  the leading underscore), and the effects on its collaborators: \<open>sent\<close> is the list
  of \<^verbatim>\<open>sendCommand(cmd, data)\<close> calls made so far, \<open>needsRedraw\<close> is set by
  \<^verbatim>\<open>markAsDirty()\<close>, \<open>clipboard\<close> is the host's clipboard (\<open>None\<close>:
  \<^verbatim>\<open>hasTextInClipboard()\<close> is false). The members that only drawing reads
  (\<^verbatim>\<open>_drawAlign\<close>, \<^verbatim>\<open>_highlightalign\<close>, \<^verbatim>\<open>_visiblestr\<close>) and the calls into the theme
  are left out.
\<close>

record EditableWidget =
  editString :: U32String
  caretPos :: int
  caretVisible :: bool
  caretTime :: "32 word"
  editScrollOffset :: int
  highlightVisible :: bool
  highlightPos :: int
  highlightSize :: int
  highlightCharacterCount :: int
  highlightString :: U32String
  cmd :: "32 word"
  sent :: "(32 word \<times> 32 word) list"
  needsRedraw :: bool
  clipboard :: "U32String option"

text \<open>
  What the widget asks of others during one call: the flags of the widget framework,
  the edit rectangle of the subclass (\<^verbatim>\<open>getEditRect()\<close>) and the widget's height
  \<^verbatim>\<open>_h\<close>, the font metrics of \<^verbatim>\<open>g_gui\<close> for the widget's font, the clock, the
  constant \<^verbatim>\<open>kCaretBlinkTime\<close>, \<^verbatim>\<open>U32String::trim\<close>, the two pure virtual callbacks
  of the subclass, and whether the file is compiled with \<^verbatim>\<open>MACOSX\<close> defined.
\<close>

record env =
  enabled :: bool
  visible :: bool
  bossVisible :: bool
  editRect_left :: int
  editRect_top :: int
  editRect_right :: int
  editRect_bottom :: int
  widget_h :: int
  getStringWidth :: "U32String \<Rightarrow> int"
  getCharWidth :: "32 word \<Rightarrow> int"
  getMillis :: "32 word"
  kCaretBlinkTime :: "32 word"
  trim :: "U32String \<Rightarrow> U32String"
  endEditMode :: "EditableWidget \<Rightarrow> EditableWidget option"
  abortEditMode :: "EditableWidget \<Rightarrow> EditableWidget option"
  MACOSX :: bool

definition editRect_width :: "env \<Rightarrow> int" where
  "editRect_width E = editRect_right E - editRect_left E"

definition editRect_height :: "env \<Rightarrow> int" where
  "editRect_height E = editRect_bottom E - editRect_top E"

text \<open>\<^verbatim>\<open>init()\<close>, for the members above; the strings start empty.\<close>

definition init :: "32 word \<Rightarrow> U32String option \<Rightarrow> EditableWidget" where
  "init c clip =
     \<lparr> editString = [], caretPos = 0, caretVisible = False, caretTime = 0,
       editScrollOffset = 0, highlightVisible = False, highlightPos = 0,
       highlightSize = 0, highlightCharacterCount = 0, highlightString = [],
       cmd = c, sent = [], needsRedraw = False, clipboard = clip \<rparr>"

definition setEditString :: "U32String \<Rightarrow> EditableWidget \<Rightarrow> EditableWidget" where
  "setEditString str w = w\<lparr>editString := str, caretPos := 0\<rparr>"

definition sendCommand :: "32 word \<Rightarrow> 32 word \<Rightarrow> EditableWidget \<Rightarrow> EditableWidget" where
  "sendCommand c d w = w\<lparr>sent := sent w @ [(c, d)]\<rparr>"

definition markAsDirty :: "EditableWidget \<Rightarrow> EditableWidget" where
  "markAsDirty w = w\<lparr>needsRedraw := True\<rparr>"

subsection \<open>Caret, highlight and scrolling\<close>

definition tryInsertChar :: "8 word \<Rightarrow> int \<Rightarrow> EditableWidget \<Rightarrow> (bool \<times> EditableWidget) option" where
  "tryInsertChar c pos w =
     (if (32 \<le> c \<and> c \<le> 127) \<or> 160 \<le> c
      then (case insertChar (ucast c) pos (editString w) of
              None \<Rightarrow> None
            | Some str \<Rightarrow> Some (True, w\<lparr>editString := str\<rparr>))
      else Some (False, w))"

text \<open>
  \<^verbatim>\<open>initHighlight()\<close>: the loop inserts a blank at index \<open>i\<close> into a string of length
  \<open>i\<close>, for \<open>i\<close> from 0 below the caret position, which leaves that many blanks.
\<close>

definition initHighlight :: "EditableWidget \<Rightarrow> EditableWidget" where
  "initHighlight w =
     w\<lparr>highlightVisible := False,
       highlightString := replicate (nat (caretPos w)) 32,
       highlightPos := caretPos w,
       highlightSize := 0,
       highlightCharacterCount := 0\<rparr>"

definition getCaretOffset :: "env \<Rightarrow> EditableWidget \<Rightarrow> int" where
  "getCaretOffset E w =
     getStringWidth E (take (nat (caretPos w)) (editString w)) - editScrollOffset w"

definition getHighlightOffset :: "env \<Rightarrow> EditableWidget \<Rightarrow> int" where
  "getHighlightOffset E w =
     getStringWidth E (take (nat (highlightPos w)) (editString w)) - editScrollOffset w"

definition adjustOffset :: "env \<Rightarrow> EditableWidget \<Rightarrow> bool \<times> EditableWidget" where
  "adjustOffset E w =
     (let caretpos = getCaretOffset E w;
          editWidth = editRect_width E
      in if highlightVisible w then
           (let highlightpos = getHighlightOffset E w
            in if highlightpos < 1
                 then (True, w\<lparr>editScrollOffset := editScrollOffset w + highlightpos\<rparr>)
               else if highlightpos \<ge> editWidth
                 then (True, w\<lparr>editScrollOffset :=
                                  editScrollOffset w - (editWidth - highlightpos)\<rparr>)
               else (False, w))
         else if caretpos < 0
           then (True, w\<lparr>editScrollOffset := editScrollOffset w + caretpos\<rparr>)
         else if caretpos \<ge> editWidth
           then (True, w\<lparr>editScrollOffset := editScrollOffset w - (editWidth - caretpos)\<rparr>)
         else if editScrollOffset w > 0 then
           (let strWidth = getStringWidth E (editString w)
            in if strWidth - editScrollOffset w < editWidth
                 then (False, w\<lparr>editScrollOffset :=
                                   (if strWidth - editWidth < 0 then 0
                                    else strWidth - editWidth)\<rparr>)
               else (False, w))
         else (False, w))"

definition setCaretPos :: "env \<Rightarrow> int \<Rightarrow> EditableWidget \<Rightarrow> (bool \<times> EditableWidget) option" where
  "setCaretPos E newPos w =
     (if newPos \<ge> 0 \<and> newPos \<le> int (length (editString w))
      then Some (adjustOffset E (w\<lparr>caretPos := newPos\<rparr>))
      else None)"

text \<open>
  \<^verbatim>\<open>drawCaret(erase)\<close>, for the state it changes: nothing when the widget or its boss
  is not visible or the edit rectangle does not fit; otherwise the highlight is reset
  when none is visible, and \<^verbatim>\<open>_caretVisible\<close> becomes \<^verbatim>\<open>!erase\<close>.
\<close>

definition drawCaret :: "env \<Rightarrow> bool \<Rightarrow> EditableWidget \<Rightarrow> EditableWidget" where
  "drawCaret E erase w =
     (if \<not> visible E \<or> \<not> bossVisible E then w
      else if editRect_top E < 0 \<or> editRect_top E + editRect_height E > widget_h E then w
      else (if highlightVisible w then w else initHighlight w)\<lparr>caretVisible := \<not> erase\<rparr>)"

definition makeCaretVisible :: "env \<Rightarrow> EditableWidget \<Rightarrow> EditableWidget" where
  "makeCaretVisible E w =
     drawCaret E False (w\<lparr>caretTime := getMillis E + kCaretBlinkTime E, caretVisible := True\<rparr>)"

text \<open>
  The loop that removes the highlighted characters, written three times in the source:
  \<^verbatim>\<open>for (uint32 i = _highlightPos + _highlightCharacterCount; i > (uint32)_highlightPos; i--)\<close>
  deletes the character at \<open>i - 1\<close> of the edit string and of the highlight string.
\<close>

function removeChars :: "32 word \<Rightarrow> 32 word \<Rightarrow> U32String \<times> U32String \<Rightarrow> (U32String \<times> U32String) option" where
  "removeChars i lo (es, hs) =
     (if i > lo then
        (case deleteChar (uint (i - 1)) es of
           None \<Rightarrow> None
         | Some es1 \<Rightarrow>
             (case deleteChar (uint (i - 1)) hs of
                None \<Rightarrow> None
              | Some hs1 \<Rightarrow> removeChars (i - 1) lo (es1, hs1)))
      else Some (es, hs))"
  by pat_completeness auto
termination
proof (relation "measure (\<lambda>(i, lo, p). unat i)")
  show "wf (measure (\<lambda>(i, lo, p). unat i))" by simp
next
  fix i lo :: "32 word" and es hs es1 hs1 :: U32String
  assume "lo < i"
  then have "unat (i - 1) < unat i"
    by (metis measure_unat word_not_simps(1))
  then show "((i - 1, lo, es1, hs1), i, lo, es, hs) \<in> measure (\<lambda>(i, lo, p). unat i)"
    by simp
qed

definition removeHighlighted :: "EditableWidget \<Rightarrow> EditableWidget option" where
  "removeHighlighted w =
     (case removeChars (word_of_int (highlightPos w + highlightCharacterCount w))
                       (word_of_int (highlightPos w))
                       (editString w, highlightString w) of
        None \<Rightarrow> None
      | Some (es, hs) \<Rightarrow> Some (w\<lparr>editString := es, highlightString := hs\<rparr>))"

subsection \<open>Key handling\<close>

text \<open>
  A branch of the \<^verbatim>\<open>switch\<close> of \<^verbatim>\<open>handleKeyDown\<close> leaves the widget and the three
  locals \<^verbatim>\<open>dirty\<close>, \<^verbatim>\<open>forcecaret\<close> and \<^verbatim>\<open>handled\<close>, in this order.
\<close>

type_synonym outcome = "EditableWidget \<times> bool \<times> bool \<times> bool"

definition defaultKeyDownHandler ::
    "env \<Rightarrow> KeyState \<Rightarrow> EditableWidget \<Rightarrow> bool \<Rightarrow> bool \<Rightarrow> bool \<Rightarrow> outcome option" where
  "defaultKeyDownHandler E st w dirty forcecaret handled =
     (if highlightVisible w then
        (if ascii st < 256 then
           do {
             (ok, w1) \<leftarrow> tryInsertChar (ucast (ascii st)) (caretPos w) w;
             if ok then
               do {
                 w2 \<leftarrow> removeHighlighted w1;
                 (r, w3) \<leftarrow> setCaretPos E (highlightPos w2 + 1) w2;
                 Some (sendCommand (cmd w3) 0 (initHighlight w3), True, True, handled)
               }
             else Some (w1, dirty, forcecaret, handled)
           }
         else Some (w, dirty, forcecaret, handled))
      else if ascii st < 256 then
        do {
          (ok, w1) \<leftarrow> tryInsertChar (ucast (ascii st)) (caretPos w) w;
          if ok then
            Some (sendCommand (cmd w1) 0 (initHighlight (w1\<lparr>caretPos := caretPos w1 + 1\<rparr>)),
                  True, True, handled)
          else Some (w1, dirty, forcecaret, False)
        }
      else Some (w, dirty, forcecaret, False))"

text \<open>\<^verbatim>\<open>case KEYCODE_RETURN\<close>, \<^verbatim>\<open>case KEYCODE_KP_ENTER\<close> and \<^verbatim>\<open>case KEYCODE_ESCAPE\<close>.\<close>

definition keyReturn :: "env \<Rightarrow> EditableWidget \<Rightarrow> outcome option" where
  "keyReturn E w = do { w1 \<leftarrow> endEditMode E (initHighlight w); Some (w1, True, False, True) }"

definition keyEscape :: "env \<Rightarrow> EditableWidget \<Rightarrow> outcome option" where
  "keyEscape E w = do { w1 \<leftarrow> abortEditMode E (initHighlight w); Some (w1, True, False, True) }"

text \<open>The branch both \<^verbatim>\<open>case KEYCODE_BACKSPACE\<close> and \<^verbatim>\<open>case KEYCODE_DELETE\<close> take
  when a highlight is visible.\<close>

definition deleteHighlight :: "env \<Rightarrow> EditableWidget \<Rightarrow> outcome option" where
  "deleteHighlight E w =
     do {
       w1 \<leftarrow> removeHighlighted w;
       (r, w2) \<leftarrow> setCaretPos E (highlightPos w1) w1;
       Some (sendCommand (cmd w2) 0 (initHighlight w2), True, True, True)
     }"

definition keyBackspace :: "env \<Rightarrow> EditableWidget \<Rightarrow> outcome option" where
  "keyBackspace E w =
     (if highlightVisible w then deleteHighlight E w
      else if caretPos w > 0 then
        do {
          let w1 = w\<lparr>caretPos := caretPos w - 1\<rparr>;
          str \<leftarrow> deleteChar (caretPos w1) (editString w1);
          Some (sendCommand (cmd w1) 0 (initHighlight (w1\<lparr>editString := str\<rparr>)),
                True, True, True)
        }
      else Some (w, False, True, True))"

definition keyDelete :: "env \<Rightarrow> EditableWidget \<Rightarrow> outcome option" where
  "keyDelete E w =
     (if highlightVisible w then deleteHighlight E w
      else if caretPos w < int (length (editString w)) then
        do {
          str \<leftarrow> deleteChar (caretPos w) (editString w);
          Some (sendCommand (cmd w) 0 (initHighlight (w\<lparr>editString := str\<rparr>)),
                True, True, True)
        }
      else Some (w, False, True, True))"

text \<open>\<^verbatim>\<open>case KEYCODE_DOWN\<close> and \<^verbatim>\<open>case KEYCODE_END\<close>.\<close>

definition keyEnd :: "env \<Rightarrow> EditableWidget \<Rightarrow> outcome option" where
  "keyEnd E w =
     do {
       let w1 = initHighlight w;
       (r, w2) \<leftarrow> setCaretPos E (int (length (editString w1))) w1;
       Some (w2, True, True, True)
     }"

definition keyLeft :: "hdr \<Rightarrow> env \<Rightarrow> KeyState \<Rightarrow> EditableWidget \<Rightarrow> outcome option" where
  "keyLeft H E st w =
     (if uint (flags st) AND KBD_SHIFT H \<noteq> 0 then
        (let w1 = w\<lparr>highlightVisible := True\<rparr> in
         if highlightPos w1 > 0 then
           do {
             let w2 = w1\<lparr>highlightPos := highlightPos w1 - 1,
                        highlightCharacterCount := highlightCharacterCount w1 + 1\<rparr>;
             c \<leftarrow> charAt (editString w2) (highlightPos w2);
             let w3 = w2\<lparr>highlightSize := highlightSize w2 + getCharWidth E c\<rparr>;
             hs \<leftarrow> setChar c (highlightPos w3) (highlightString w3);
             Some (w3\<lparr>highlightString := hs\<rparr>, True, True, True)
           }
         else Some (w1, True, True, True))
      else if caretPos w > 0 then
        do {
          (r, w1) \<leftarrow> setCaretPos E (caretPos w - 1) w;
          Some (sendCommand (cmd w1) 0 (initHighlight w1), True, True, True)
        }
      else Some (w, True, True, True))"

definition keyRight :: "env \<Rightarrow> EditableWidget \<Rightarrow> outcome option" where
  "keyRight E w =
     do {
       w2 \<leftarrow> (if caretPos w < int (length (editString w)) then
                do {
                  (r, w1) \<leftarrow> setCaretPos E (caretPos w + 1) w;
                  Some (sendCommand (cmd w1) 0 (initHighlight w1))
                }
              else Some w);
       Some (sendCommand (cmd w2) 0 (initHighlight w2), True, True, True)
     }"

text \<open>\<^verbatim>\<open>case KEYCODE_UP\<close> and \<^verbatim>\<open>case KEYCODE_HOME\<close>.\<close>

definition keyHome :: "env \<Rightarrow> EditableWidget \<Rightarrow> outcome option" where
  "keyHome E w =
     do {
       (r, w1) \<leftarrow> setCaretPos E 0 (initHighlight w);
       Some (sendCommand (cmd w1) 0 w1, True, True, True)
     }"

text \<open>
  The loop of the paste branch over the trimmed clipboard text: each character is
  converted to \<^verbatim>\<open>byte\<close> for \<^verbatim>\<open>tryInsertChar\<close>, and the caret advances when it is
  accepted.
\<close>

fun pasteChars :: "U32String \<Rightarrow> EditableWidget \<Rightarrow> EditableWidget option" where
  "pasteChars [] w = Some w"
| "pasteChars (c # cs) w =
     do {
       (ok, w1) \<leftarrow> tryInsertChar (ucast c) (caretPos w) w;
       pasteChars cs (if ok then w1\<lparr>caretPos := caretPos w1 + 1\<rparr> else w1)
     }"

text \<open>\<^verbatim>\<open>case KEYCODE_v\<close> and \<^verbatim>\<open>case KEYCODE_c\<close>.\<close>

definition keyV :: "hdr \<Rightarrow> env \<Rightarrow> KeyState \<Rightarrow> EditableWidget \<Rightarrow> outcome option" where
  "keyV H E st w =
     (if uint (flags st) AND KBD_CTRL H \<noteq> 0 then
        (case clipboard w of
           None \<Rightarrow> Some (w, False, False, True)
         | Some text \<Rightarrow>
             do {
               w1 \<leftarrow> pasteChars (trim E text) (initHighlight w);
               Some (w1, True, False, True)
             })
      else defaultKeyDownHandler E st w False False True)"

definition keyC :: "hdr \<Rightarrow> env \<Rightarrow> KeyState \<Rightarrow> EditableWidget \<Rightarrow> outcome option" where
  "keyC H E st w =
     (if uint (flags st) AND KBD_CTRL H \<noteq> 0 then
        (if editString w \<noteq> [] then Some (w\<lparr>clipboard := Some (editString w)\<rparr>, False, False, True)
         else Some (w, False, False, True))
      else defaultKeyDownHandler E st w False False True)"

text \<open>
  \<^verbatim>\<open>case KEYCODE_a\<close> and \<^verbatim>\<open>case KEYCODE_e\<close>, compiled under \<^verbatim>\<open>MACOSX\<close> only: with ctrl
  the caret moves, without it the case falls through to \<^verbatim>\<open>default\<close>.
\<close>

definition keyAE :: "hdr \<Rightarrow> env \<Rightarrow> KeyState \<Rightarrow> EditableWidget \<Rightarrow> outcome option" where
  "keyAE H E st w =
     (if uint (flags st) AND KBD_CTRL H \<noteq> 0 then
        (if keycode st = Common H KEYCODE_a then
           do { (r, w1) \<leftarrow> setCaretPos E 0 w; Some (w1, r, True, True) }
         else if keycode st = Common H KEYCODE_e then
           do { (r, w1) \<leftarrow> setCaretPos E (int (length (editString w))) w;
                Some (w1, r, True, True) }
         else Some (w, False, False, True))
      else defaultKeyDownHandler E st w False False True)"

text \<open>
  The remapping of the numeric keypad when NUM lock is off. The source indexes the
  array \<^verbatim>\<open>remap[11]\<close> with \<^verbatim>\<open>keycode - KEYCODE_KP0\<close> and relies on the keypad
  enumerators being consecutive; an index outside the array has no result.
\<close>

definition remap :: "hdr \<Rightarrow> int list" where
  "remap H = map (Common H)
     [KEYCODE_INSERT, KEYCODE_END, KEYCODE_DOWN, KEYCODE_PAGEDOWN, KEYCODE_LEFT,
      KEYCODE_INVALID, KEYCODE_RIGHT, KEYCODE_HOME, KEYCODE_UP, KEYCODE_PAGEUP,
      KEYCODE_DELETE]"

definition remapKeypad :: "hdr \<Rightarrow> KeyState \<Rightarrow> int option" where
  "remapKeypad H st =
     (if 0 = uint (flags st) AND KBD_NUM H
         \<and> Common H KEYCODE_KP0 \<le> keycode st
         \<and> keycode st \<le> Common H KEYCODE_KP_PERIOD
      then (if nat (keycode st - Common H KEYCODE_KP0) < length (remap H)
            then Some (remap H ! nat (keycode st - Common H KEYCODE_KP0))
            else None)
      else Some (keycode st))"

text \<open>The \<^verbatim>\<open>switch (state.keycode)\<close>, in the order of the source.\<close>

definition dispatch :: "hdr \<Rightarrow> env \<Rightarrow> KeyState \<Rightarrow> EditableWidget \<Rightarrow> outcome option" where
  "dispatch H E st w =
     (let kc = keycode st in
      if kc = Common H KEYCODE_RETURN \<or> kc = Common H KEYCODE_KP_ENTER then keyReturn E w
      else if kc = Common H KEYCODE_ESCAPE then keyEscape E w
      else if kc = Common H KEYCODE_BACKSPACE then keyBackspace E w
      else if kc = Common H KEYCODE_DELETE then keyDelete E w
      else if kc = Common H KEYCODE_DOWN \<or> kc = Common H KEYCODE_END then keyEnd E w
      else if kc = Common H KEYCODE_LEFT then keyLeft H E st w
      else if kc = Common H KEYCODE_RIGHT then keyRight E w
      else if kc = Common H KEYCODE_UP \<or> kc = Common H KEYCODE_HOME then keyHome E w
      else if kc = Common H KEYCODE_v then keyV H E st w
      else if kc = Common H KEYCODE_c then keyC H E st w
      else if MACOSX E \<and> (kc = Common H KEYCODE_a \<or> kc = Common H KEYCODE_e)
        then keyAE H E st w
      else defaultKeyDownHandler E st w False False True)"

text \<open>\<^verbatim>\<open>handleKeyDown\<close>: the result is the value returned and the widget after the call.\<close>

definition handleKeyDown :: "hdr \<Rightarrow> env \<Rightarrow> KeyState \<Rightarrow> EditableWidget \<Rightarrow> (bool \<times> EditableWidget) option" where
  "handleKeyDown H E st w =
     (if \<not> enabled E then Some (False, w)
      else
        do {
          let w0 = (if caretVisible w then drawCaret E True w else w);
          kc \<leftarrow> remapKeypad H st;
          (w1, dirty, forcecaret, handled) \<leftarrow> dispatch H E (st\<lparr>keycode := kc\<rparr>) w0;
          let w2 = (if dirty then markAsDirty w1 else w1);
          let w3 = (if forcecaret then makeCaretVisible E w2 else w2);
          Some (handled, w3)
        })"

subsection \<open>The caret invariant and the case labels\<close>

definition caretOK :: "EditableWidget \<Rightarrow> bool" where
  "caretOK w \<longleftrightarrow> 0 \<le> caretPos w \<and> caretPos w \<le> int (length (editString w))"

text \<open>
  The labels of the \<^verbatim>\<open>switch\<close> of \<^verbatim>\<open>handleKeyDown\<close> that are compiled on every
  platform. C++ accepts a \<^verbatim>\<open>switch\<close> only if its labels have different values.
\<close>

definition caseLabels :: "hdr \<Rightarrow> int list" where
  "caseLabels H = map (Common H)
     [KEYCODE_RETURN, KEYCODE_KP_ENTER, KEYCODE_ESCAPE, KEYCODE_BACKSPACE, KEYCODE_DELETE,
      KEYCODE_DOWN, KEYCODE_END, KEYCODE_LEFT, KEYCODE_RIGHT, KEYCODE_UP, KEYCODE_HOME,
      KEYCODE_v, KEYCODE_c]"

subsection \<open>A concrete table of header constants\<close>

text \<open>
  The values the named enumerators have in ScummVM's \<^verbatim>\<open>common/keyboard.h\<close>
  (\<^verbatim>\<open>Common::KeyCode\<close>, \<^verbatim>\<open>Common::KBD_*\<close>) and in the AGS engine's list of Allegro
  scancodes (\<^verbatim>\<open>__allegro_KEY_*\<close>, \<^verbatim>\<open>EXTENDED_KEY_CODE\<close>). The functions above do not
  depend on them; they are the table at which general statements are instantiated.
\<close>

primrec KeyCode_value :: "KeyName \<Rightarrow> int" where
  "KeyCode_value KEYCODE_INVALID = 0"
| "KeyCode_value KEYCODE_BACKSPACE = 8"
| "KeyCode_value KEYCODE_TAB = 9"
| "KeyCode_value KEYCODE_RETURN = 13"
| "KeyCode_value KEYCODE_PAUSE = 19"
| "KeyCode_value KEYCODE_ESCAPE = 27"
| "KeyCode_value KEYCODE_SPACE = 32"
| "KeyCode_value KEYCODE_QUOTE = 39"
| "KeyCode_value KEYCODE_ASTERISK = 42"
| "KeyCode_value KEYCODE_COMMA = 44"
| "KeyCode_value KEYCODE_MINUS = 45"
| "KeyCode_value KEYCODE_SLASH = 47"
| "KeyCode_value KEYCODE_0 = 48"
| "KeyCode_value KEYCODE_9 = 57"
| "KeyCode_value KEYCODE_COLON = 58"
| "KeyCode_value KEYCODE_SEMICOLON = 59"
| "KeyCode_value KEYCODE_EQUALS = 61"
| "KeyCode_value KEYCODE_LEFTBRACKET = 91"
| "KeyCode_value KEYCODE_BACKSLASH = 92"
| "KeyCode_value KEYCODE_RIGHTBRACKET = 93"
| "KeyCode_value KEYCODE_a = 97"
| "KeyCode_value KEYCODE_c = 99"
| "KeyCode_value KEYCODE_e = 101"
| "KeyCode_value KEYCODE_v = 118"
| "KeyCode_value KEYCODE_z = 122"
| "KeyCode_value KEYCODE_TILDE = 126"
| "KeyCode_value KEYCODE_DELETE = 127"
| "KeyCode_value KEYCODE_KP0 = 256"
| "KeyCode_value KEYCODE_KP1 = 257"
| "KeyCode_value KEYCODE_KP2 = 258"
| "KeyCode_value KEYCODE_KP3 = 259"
| "KeyCode_value KEYCODE_KP4 = 260"
| "KeyCode_value KEYCODE_KP5 = 261"
| "KeyCode_value KEYCODE_KP6 = 262"
| "KeyCode_value KEYCODE_KP7 = 263"
| "KeyCode_value KEYCODE_KP8 = 264"
| "KeyCode_value KEYCODE_KP9 = 265"
| "KeyCode_value KEYCODE_KP_PERIOD = 266"
| "KeyCode_value KEYCODE_KP_DIVIDE = 267"
| "KeyCode_value KEYCODE_KP_MINUS = 269"
| "KeyCode_value KEYCODE_KP_PLUS = 270"
| "KeyCode_value KEYCODE_KP_ENTER = 271"
| "KeyCode_value KEYCODE_UP = 273"
| "KeyCode_value KEYCODE_DOWN = 274"
| "KeyCode_value KEYCODE_RIGHT = 275"
| "KeyCode_value KEYCODE_LEFT = 276"
| "KeyCode_value KEYCODE_INSERT = 277"
| "KeyCode_value KEYCODE_HOME = 278"
| "KeyCode_value KEYCODE_END = 279"
| "KeyCode_value KEYCODE_PAGEUP = 280"
| "KeyCode_value KEYCODE_PAGEDOWN = 281"
| "KeyCode_value KEYCODE_F1 = 282"
| "KeyCode_value KEYCODE_F2 = 283"
| "KeyCode_value KEYCODE_F3 = 284"
| "KeyCode_value KEYCODE_F4 = 285"
| "KeyCode_value KEYCODE_F5 = 286"
| "KeyCode_value KEYCODE_F6 = 287"
| "KeyCode_value KEYCODE_F7 = 288"
| "KeyCode_value KEYCODE_F8 = 289"
| "KeyCode_value KEYCODE_F9 = 290"
| "KeyCode_value KEYCODE_F10 = 291"
| "KeyCode_value KEYCODE_F11 = 292"
| "KeyCode_value KEYCODE_F12 = 293"
| "KeyCode_value KEYCODE_NUMLOCK = 300"
| "KeyCode_value KEYCODE_CAPSLOCK = 301"
| "KeyCode_value KEYCODE_SCROLLOCK = 302"
| "KeyCode_value KEYCODE_RSHIFT = 303"
| "KeyCode_value KEYCODE_LSHIFT = 304"
| "KeyCode_value KEYCODE_RCTRL = 305"
| "KeyCode_value KEYCODE_LCTRL = 306"
| "KeyCode_value KEYCODE_RALT = 307"
| "KeyCode_value KEYCODE_LALT = 308"
| "KeyCode_value KEYCODE_LSUPER = 311"
| "KeyCode_value KEYCODE_RSUPER = 312"
| "KeyCode_value KEYCODE_PRINT = 316"

primrec allegro_value :: "AllegroName \<Rightarrow> int" where
  "allegro_value allegro_KEY_A = 1"
| "allegro_value allegro_KEY_0 = 27"
| "allegro_value allegro_KEY_0_PAD = 37"
| "allegro_value allegro_KEY_F1 = 47"
| "allegro_value allegro_KEY_ESC = 59"
| "allegro_value allegro_KEY_TILDE = 60"
| "allegro_value allegro_KEY_MINUS = 61"
| "allegro_value allegro_KEY_EQUALS = 62"
| "allegro_value allegro_KEY_BACKSPACE = 63"
| "allegro_value allegro_KEY_TAB = 64"
| "allegro_value allegro_KEY_OPENBRACE = 65"
| "allegro_value allegro_KEY_CLOSEBRACE = 66"
| "allegro_value allegro_KEY_ENTER = 67"
| "allegro_value allegro_KEY_COLON = 68"
| "allegro_value allegro_KEY_QUOTE = 69"
| "allegro_value allegro_KEY_BACKSLASH = 70"
| "allegro_value allegro_KEY_COMMA = 72"
| "allegro_value allegro_KEY_SLASH = 74"
| "allegro_value allegro_KEY_SPACE = 75"
| "allegro_value allegro_KEY_INSERT = 76"
| "allegro_value allegro_KEY_DEL = 77"
| "allegro_value allegro_KEY_HOME = 78"
| "allegro_value allegro_KEY_END = 79"
| "allegro_value allegro_KEY_PGUP = 80"
| "allegro_value allegro_KEY_PGDN = 81"
| "allegro_value allegro_KEY_LEFT = 82"
| "allegro_value allegro_KEY_RIGHT = 83"
| "allegro_value allegro_KEY_UP = 84"
| "allegro_value allegro_KEY_DOWN = 85"
| "allegro_value allegro_KEY_SLASH_PAD = 86"
| "allegro_value allegro_KEY_ASTERISK = 87"
| "allegro_value allegro_KEY_MINUS_PAD = 88"
| "allegro_value allegro_KEY_PLUS_PAD = 89"
| "allegro_value allegro_KEY_DEL_PAD = 90"
| "allegro_value allegro_KEY_ENTER_PAD = 91"
| "allegro_value allegro_KEY_PRTSCR = 92"
| "allegro_value allegro_KEY_PAUSE = 93"
| "allegro_value allegro_KEY_SEMICOLON = 105"
| "allegro_value allegro_KEY_LSHIFT = 115"
| "allegro_value allegro_KEY_RSHIFT = 116"
| "allegro_value allegro_KEY_LCONTROL = 117"
| "allegro_value allegro_KEY_RCONTROL = 118"
| "allegro_value allegro_KEY_ALT = 119"
| "allegro_value allegro_KEY_SCRLOCK = 124"
| "allegro_value allegro_KEY_NUMLOCK = 125"
| "allegro_value allegro_KEY_CAPSLOCK = 126"
| "allegro_value allegro_KEY_MAX = 127"

definition scummvm_hdr :: hdr where
  "scummvm_hdr =
     \<lparr> Common = KeyCode_value,
       AGS3 = allegro_value,
       KBD_CTRL = 1, KBD_ALT = 2, KBD_SHIFT = 4, KBD_NUM = 16,
       EXTENDED_KEY_CODE = 0 \<rparr>"

text \<open>Concrete events, a fresh manager, and a concrete setting for a text field.\<close>

definition keyDown :: "int \<Rightarrow> 16 word \<Rightarrow> 8 word \<Rightarrow> Event" where
  "keyDown kc a f =
     \<lparr> etype = EVENT_KEYDOWN,
       kbd = \<lparr> keycode = kc, ascii = a, flags = f \<rparr>,
       joystick = \<lparr> axis = 0, position = 0, button = 0 \<rparr>,
       mouse = (0, 0) \<rparr>"

definition mouseMove :: "int \<times> int \<Rightarrow> Event" where
  "mouseMove xy =
     \<lparr> etype = EVENT_MOUSEMOVE,
       kbd = \<lparr> keycode = 0, ascii = 0, flags = 0 \<rparr>,
       joystick = \<lparr> axis = 0, position = 0, button = 0 \<rparr>,
       mouse = xy \<rparr>"

definition fresh :: EventsManager where
  "fresh = EventsManager_init scummvm_hdr False False True"

definition isSpace :: "32 word \<Rightarrow> bool" where
  "isSpace c \<longleftrightarrow> c = 32 \<or> (9 \<le> c \<and> c \<le> 13)"

definition trimSpaces :: "U32String \<Rightarrow> U32String" where
  "trimSpaces str = rev (dropWhile isSpace (rev (dropWhile isSpace str)))"

text \<open>
  An enabled, visible field of 200 by 16 pixels, a font whose characters are 8 pixels
  wide, and a subclass whose two callbacks leave the widget as it is.
\<close>

definition field_env :: env where
  "field_env =
     \<lparr> enabled = True, visible = True, bossVisible = True,
       editRect_left = 0, editRect_top = 0, editRect_right = 200, editRect_bottom = 16,
       widget_h = 16,
       getStringWidth = (\<lambda>str. 8 * int (length str)),
       getCharWidth = (\<lambda>c. 8),
       getMillis = 1000, kCaretBlinkTime = 300,
       trim = trimSpaces,
       endEditMode = Some, abortEditMode = Some,
       MACOSX = False \<rparr>"

section \<open>Properties of the input translator\<close>

subsection \<open>Concrete values\<close>

lemma scummvm_scancodes:
  "getScancode scummvm_hdr 97 = 1"
  "getScancode scummvm_hdr 98 = 2"
  "getScancode scummvm_hdr 282 = 47"
  "getScancode scummvm_hdr 294 = 0"
  "getScancode scummvm_hdr 307 = 119"
  "getScancode scummvm_hdr 308 = 119"
  by (simp_all add: getScancode_def getScancode_switch_def scummvm_hdr_def)

lemma scummvm_plain_keys:
  "\<not> isModifierKey scummvm_hdr 97"
  "\<not> isModifierKey scummvm_hdr 282"
  "\<not> isModifierKey scummvm_hdr 294"
  "\<not> isExtendedKey scummvm_hdr 97"
  "isExtendedKey scummvm_hdr 282"
  "\<not> isExtendedKey scummvm_hdr 294"
  by (simp_all add: isModifierKey_def isExtendedKey_def EXTENDED_KEYS_def scummvm_hdr_def)

lemma scummvm_terminator:
  "Common scummvm_hdr KEYCODE_INVALID \<notin> set (EXTENDED_KEYS scummvm_hdr)"
  by (simp add: EXTENDED_KEYS_def scummvm_hdr_def)

lemma fresh_fields:
  "keys fresh = replicate 127 False" "pendingKeys fresh = []" "pendingEvents fresh = []"
  by (simp_all add: fresh_def EventsManager_init_def scummvm_hdr_def)

subsection \<open>The encoding of \<^verbatim>\<open>readKey\<close>\<close>

lemma scanKeys_set:
  "stop \<notin> set ks \<Longrightarrow> scanKeys stop kc (ks @ [stop]) \<longleftrightarrow> kc \<in> set ks"
  by (induction ks) auto

lemma isExtendedKey_set:
  "Common H KEYCODE_INVALID \<notin> set (EXTENDED_KEYS H) \<Longrightarrow>
   isExtendedKey H kc \<longleftrightarrow> kc \<in> set (EXTENDED_KEYS H)"
  by (simp add: isExtendedKey_def scanKeys_set)

text \<open>
  Claim C1. When the queue of pending keys is not empty after polling, \<^verbatim>\<open>readKey\<close>
  pops its head and returns \<open>(scancode << 8) | payload\<close>: the payload is
  \<^verbatim>\<open>EXTENDED_KEY_CODE\<close> if the keycode is one of the array \<^verbatim>\<open>EXTENDED_KEYS\<close> (F1 to
  F12, the keypad digits and period, insert, delete, home, end, page up and down, the
  four arrows), else the character code if neither ctrl nor alt is among the flags,
  else the scancode. The loop over the array tests membership as long as no element
  of the array has the value of its terminator \<^verbatim>\<open>KEYCODE_INVALID\<close>.
\<close>

theorem readKey_encoding:
  assumes "pollEvents H evs s = Some s1"
      and "pendingKeys s1 = k # rest"
      and "Common H KEYCODE_INVALID \<notin> set (EXTENDED_KEYS H)"
  shows "readKey H evs s =
           Some (push_bit 8 (getScancode H (keycode k)) OR
                   (if keycode k \<in> set (EXTENDED_KEYS H) then EXTENDED_KEY_CODE H
                    else if uint (flags k) AND (KBD_CTRL H OR KBD_ALT H) = 0
                      then uint (ascii k)
                    else getScancode H (keycode k)),
                 s1\<lparr>pendingKeys := rest\<rparr>)"
  using assms by (simp add: readKey_def keyCode_def isExtendedKey_set Let_def)

text \<open>ctrl+a on a fresh manager: scancode 1, payload 1 (the scancode), code 257.\<close>

theorem readKey_encoding_witness:
  "Common scummvm_hdr KEYCODE_INVALID \<notin> set (EXTENDED_KEYS scummvm_hdr)
   \<and> map_option fst (readKey scummvm_hdr [keyDown 97 1 1] fresh) = Some 257"
proof -
  have "\<exists>s1. pollEvents scummvm_hdr [keyDown 97 1 1] fresh = Some s1
          \<and> pendingKeys s1 = [\<lparr>keycode = 97, ascii = 1, flags = 1\<rparr>]"
    by (simp add: handleEvent_def updateKeys_def keyDown_def scummvm_scancodes
          scummvm_plain_keys fresh_fields)
  then obtain s1 where s1: "pollEvents scummvm_hdr [keyDown 97 1 1] fresh = Some s1"
      "pendingKeys s1 = [\<lparr>keycode = 97, ascii = 1, flags = 1\<rparr>]"
    by blast
  have x: "(97::int) \<notin> set (EXTENDED_KEYS scummvm_hdr)"
    using scummvm_plain_keys(4) by (simp add: isExtendedKey_set [OF scummvm_terminator])
  have m: "KBD_CTRL scummvm_hdr = 1" "KBD_ALT scummvm_hdr = 2"
    by (simp_all add: scummvm_hdr_def)
  from readKey_encoding [OF s1 scummvm_terminator]
  have "map_option fst (readKey scummvm_hdr [keyDown 97 1 1] fresh) = Some 257"
    by (simp add: x m scummvm_scancodes)
  with scummvm_terminator show ?thesis by simp
qed

subsection \<open>The scancode table\<close>

lemma getScancode_switch_row:
  assumes "getScancode_switch H k \<noteq> 0"
  shows "(k, getScancode_switch H k) \<in> set (switchRows H)
       \<or> (k = Common H KEYCODE_RALT \<and> getScancode_switch H k = AGS3 H allegro_KEY_ALT)"
  using assms unfolding getScancode_switch_def switchRows_def
  by (simp split: if_splits)

lemma getScancode_row:
  assumes "getScancode H k \<noteq> 0"
  shows "(k, getScancode H k) \<in> set (scancodeRows H)
       \<or> (k = Common H KEYCODE_RALT \<and> getScancode H k = AGS3 H allegro_KEY_ALT)"
proof -
  consider (r) "getScancode H k \<noteq> getScancode_switch H k" | (s) "getScancode H k = getScancode_switch H k"
    by blast
  then show ?thesis
  proof cases
    case r
    then have "(k, getScancode H k) \<in> set (rangeRows H)"
      unfolding getScancode_def rangeRows_def by (auto split: if_splits)
    then show ?thesis by (simp add: scancodeRows_def)
  next
    case s
    with assms getScancode_switch_row [of H k] show ?thesis
      by (auto simp: scancodeRows_def)
  qed
qed

lemma LALT_row: "(Common H KEYCODE_LALT, AGS3 H allegro_KEY_ALT) \<in> set (scancodeRows H)"
  by (simp add: scancodeRows_def switchRows_def)

lemma distinct_snd_unique:
  "distinct (map snd xs) \<Longrightarrow> (a, v) \<in> set xs \<Longrightarrow> (b, v) \<in> set xs \<Longrightarrow> a = b"
  by (induction xs) (auto simp: image_iff)

lemma scummvm_rows_distinct: "distinct (map snd (scancodeRows scummvm_hdr))"
  by (simp add: scancodeRows_def rangeRows_def switchRows_def scummvm_hdr_def upto_rec_numeral)

text \<open>
  Claim C2, as stated, fails: \<^verbatim>\<open>KEYCODE_LALT\<close> and \<^verbatim>\<open>KEYCODE_RALT\<close> are two keycodes
  and \<^verbatim>\<open>getScancode\<close> returns \<^verbatim>\<open>__allegro_KEY_ALT\<close> for both.
\<close>

theorem getScancode_alt_collision:
  "Common scummvm_hdr KEYCODE_LALT \<noteq> Common scummvm_hdr KEYCODE_RALT
   \<and> getScancode scummvm_hdr (Common scummvm_hdr KEYCODE_LALT) \<noteq> 0
   \<and> getScancode scummvm_hdr (Common scummvm_hdr KEYCODE_RALT) \<noteq> 0
   \<and> getScancode scummvm_hdr (Common scummvm_hdr KEYCODE_LALT)
       = getScancode scummvm_hdr (Common scummvm_hdr KEYCODE_RALT)"
proof -
  have "Common scummvm_hdr KEYCODE_LALT = 308" "Common scummvm_hdr KEYCODE_RALT = 307"
    by (simp_all add: scummvm_hdr_def)
  then show ?thesis by (simp add: scummvm_scancodes)
qed

text \<open>
  Claim C2, amended. Two different keycodes with nonzero scancodes have different
  scancodes unless they are \<^verbatim>\<open>KEYCODE_LALT\<close> and \<^verbatim>\<open>KEYCODE_RALT\<close>, provided the
  scancodes of the rows of the table (the four ranges and the cases of the
  \<^verbatim>\<open>switch\<close> other than \<^verbatim>\<open>KEYCODE_RALT\<close>) are pairwise different.
\<close>

theorem getScancode_injective_except_alt:
  assumes "distinct (map snd (scancodeRows H))"
      and "k1 \<noteq> k2"
      and "getScancode H k1 \<noteq> 0" and "getScancode H k2 \<noteq> 0"
      and "{k1, k2} \<noteq> {Common H KEYCODE_LALT, Common H KEYCODE_RALT}"
  shows "getScancode H k1 \<noteq> getScancode H k2"
proof
  assume eq: "getScancode H k1 = getScancode H k2"
  let ?v = "getScancode H k1"
  note u = distinct_snd_unique [OF assms(1)]
  have a: "(k1, ?v) \<in> set (scancodeRows H)
       \<or> (k1 = Common H KEYCODE_RALT \<and> ?v = AGS3 H allegro_KEY_ALT)"
    by (rule getScancode_row [OF assms(3)])
  have b: "(k2, ?v) \<in> set (scancodeRows H)
       \<or> (k2 = Common H KEYCODE_RALT \<and> ?v = AGS3 H allegro_KEY_ALT)"
    using getScancode_row [OF assms(4)] by (simp only: eq)
  from a b consider (both) "(k1, ?v) \<in> set (scancodeRows H)" "(k2, ?v) \<in> set (scancodeRows H)"
    | (r1) "k1 = Common H KEYCODE_RALT" "?v = AGS3 H allegro_KEY_ALT" "(k2, ?v) \<in> set (scancodeRows H)"
    | (r2) "k2 = Common H KEYCODE_RALT" "?v = AGS3 H allegro_KEY_ALT" "(k1, ?v) \<in> set (scancodeRows H)"
    | (rr) "k1 = Common H KEYCODE_RALT" "k2 = Common H KEYCODE_RALT"
    by blast
  then show False
  proof cases
    case both
    then show False using u assms(2) by blast
  next
    case r1
    then have "k2 = Common H KEYCODE_LALT" using u [OF _ LALT_row [of H], of k2] by simp
    with r1 assms(5) show False by auto
  next
    case r2
    then have "k1 = Common H KEYCODE_LALT" using u [OF _ LALT_row [of H], of k1] by simp
    with r2 assms(5) show False by auto
  next
    case rr
    with assms(2) show False by simp
  qed
qed

text \<open>The table of ScummVM's headers has pairwise different rows; a and b differ.\<close>

theorem getScancode_injective_except_alt_witness:
  "getScancode scummvm_hdr 97 \<noteq> getScancode scummvm_hdr 98"
proof -
  have "Common scummvm_hdr KEYCODE_LALT = 308" "Common scummvm_hdr KEYCODE_RALT = 307"
    by (simp_all add: scummvm_hdr_def)
  then have "{97, 98} \<noteq> {Common scummvm_hdr KEYCODE_LALT, Common scummvm_hdr KEYCODE_RALT}"
    by (simp add: doubleton_eq_iff)
  then show ?thesis
    by (intro getScancode_injective_except_alt [OF scummvm_rows_distinct])
       (simp_all add: scummvm_scancodes)
qed

subsection \<open>Mouse moves in the queue of pending events\<close>

lemma adjacentMoves_snoc:
  "adjacentMoves (ts @ [t]) \<longleftrightarrow>
     adjacentMoves ts \<or> (ts \<noteq> [] \<and> last ts = EVENT_MOUSEMOVE \<and> t = EVENT_MOUSEMOVE)"
  by (induction ts rule: adjacentMoves.induct) auto

lemma adjacentMoves_Cons: "\<not> adjacentMoves (t # ts) \<Longrightarrow> \<not> adjacentMoves ts"
  by (cases ts) auto

lemma updateKeys_pendingEvents:
  "updateKeys H k d s = Some s1 \<Longrightarrow> pendingEvents s1 = pendingEvents s"
  by (auto simp: updateKeys_def Let_def split: if_splits)

lemma handleEvent_moves:
  assumes "handleEvent H e s = Some s1" "\<not> consecutiveMoves (pendingEvents s)"
  shows "\<not> consecutiveMoves (pendingEvents s1)"
proof (cases "etype e")
  case EVENT_MOUSEMOVE
  show ?thesis
  proof (cases "pendingEvents s \<noteq> [] \<and> etype (last (pendingEvents s)) = EVENT_MOUSEMOVE")
    case True
    then have "map etype (butlast (pendingEvents s) @ [e]) = map etype (pendingEvents s)"
      using EVENT_MOUSEMOVE
      by (metis (no_types, lifting) append_butlast_last_id list.simps(8,9) map_append)
    then show ?thesis using assms EVENT_MOUSEMOVE True
      by (auto simp: handleEvent_def consecutiveMoves_def)
  next
    case False
    then show ?thesis using assms EVENT_MOUSEMOVE
      by (auto simp: handleEvent_def consecutiveMoves_def adjacentMoves_snoc last_map)
  qed
next
  case (EVENT_OTHER n)
  then show ?thesis using assms
    by (auto simp: handleEvent_def consecutiveMoves_def adjacentMoves_snoc)
qed (use assms in \<open>auto simp: handleEvent_def dest: updateKeys_pendingEvents split: if_splits option.splits\<close>)

lemma pollEvents_moves:
  "pollEvents H evs s = Some s1 \<Longrightarrow> \<not> consecutiveMoves (pendingEvents s) \<Longrightarrow>
   \<not> consecutiveMoves (pendingEvents s1)"
  by (induction evs arbitrary: s) (auto split: option.splits dest: handleEvent_moves)

lemma call_moves:
  assumes "call H c evs s = Some s1" "\<not> consecutiveMoves (pendingEvents s)"
  shows "\<not> consecutiveMoves (pendingEvents s1)"
  using assms
  by (cases c)
     (auto simp: call_def keypressed_def readKey_def readEvent_def consecutiveMoves_def
           split: option.splits list.splits
           dest!: pollEvents_moves dest: adjacentMoves_Cons)

lemma calls_moves:
  "calls H cs s = Some s1 \<Longrightarrow> \<not> consecutiveMoves (pendingEvents s) \<Longrightarrow>
   \<not> consecutiveMoves (pendingEvents s1)"
proof (induction cs arbitrary: s)
  case Nil
  then show ?case by simp
next
  case (Cons p cs)
  obtain c evs where p: "p = (c, evs)" by (cases p)
  from Cons.prems(1) p obtain s2 where s2: "call H c evs s = Some s2" "calls H cs s2 = Some s1"
    by (auto split: option.splits)
  from call_moves [OF s2(1) Cons.prems(2)] Cons.IH [OF s2(2)] show ?case by blast
qed

text \<open>
  Claim C4. After any sequence of polling calls on a freshly constructed manager,
  whatever the host delivers, the queue of pending events has no two mouse-move
  entries next to each other; and when the incoming event is a mouse move and the last
  entry of the queue is one, the incoming event replaces that entry.
\<close>

theorem no_consecutive_mouse_moves:
  assumes "calls H cs (EventsManager_init H we ae cd) = Some s"
  shows "\<not> consecutiveMoves (pendingEvents s)
       \<and> (\<forall>e t. etype e = EVENT_MOUSEMOVE \<and> pendingEvents t \<noteq> []
                 \<and> etype (last (pendingEvents t)) = EVENT_MOUSEMOVE
              \<longrightarrow> handleEvent H e t
                    = Some (t\<lparr>pendingEvents := butlast (pendingEvents t) @ [e]\<rparr>))"
proof
  have "\<not> consecutiveMoves (pendingEvents (EventsManager_init H we ae cd))"
    by (simp add: EventsManager_init_def consecutiveMoves_def)
  with calls_moves [OF assms] show "\<not> consecutiveMoves (pendingEvents s)" by blast
next
  show "\<forall>e t. etype e = EVENT_MOUSEMOVE \<and> pendingEvents t \<noteq> []
                 \<and> etype (last (pendingEvents t)) = EVENT_MOUSEMOVE
              \<longrightarrow> handleEvent H e t
                    = Some (t\<lparr>pendingEvents := butlast (pendingEvents t) @ [e]\<rparr>)"
    by (simp add: handleEvent_def)
qed

text \<open>Three mouse moves over two calls leave the last one alone in the queue.\<close>

theorem no_consecutive_mouse_moves_witness:
  "\<exists>s. calls scummvm_hdr
          [(PollEvents, [mouseMove (1, 1), mouseMove (2, 2)]), (ReadKey, [mouseMove (3, 3)])]
          fresh = Some s
       \<and> pendingEvents s = [mouseMove (3, 3)]
       \<and> \<not> consecutiveMoves (pendingEvents s)"
proof -
  have "\<exists>s. calls scummvm_hdr
          [(PollEvents, [mouseMove (1, 1), mouseMove (2, 2)]), (ReadKey, [mouseMove (3, 3)])]
          (EventsManager_init scummvm_hdr False False True) = Some s
       \<and> pendingEvents s = [mouseMove (3, 3)]"
    by (simp add: call_def readKey_def handleEvent_def mouseMove_def EventsManager_init_def)
  then obtain s where s: "calls scummvm_hdr
          [(PollEvents, [mouseMove (1, 1), mouseMove (2, 2)]), (ReadKey, [mouseMove (3, 3)])]
          (EventsManager_init scummvm_hdr False False True) = Some s"
      "pendingEvents s = [mouseMove (3, 3)]"
    by blast
  from no_consecutive_mouse_moves [OF s(1)] s show ?thesis
    by (auto simp: fresh_def)
qed

subsection \<open>First in, first out\<close>

lemma handleEvent_keydown:
  assumes "etype e = EVENT_KEYDOWN" "\<not> isModifierKey H (keycode (kbd e))"
    "0 \<le> getScancode H (keycode (kbd e))"
    "getScancode H (keycode (kbd e)) < int (length (keys s))"
  shows "\<exists>s1. handleEvent H e s = Some s1 \<and> pendingKeys s1 = pendingKeys s @ [kbd e]
           \<and> length (keys s1) = length (keys s)"
  using assms by (auto simp: handleEvent_def updateKeys_def Let_def)

lemma pollEvents_keydowns:
  assumes "\<forall>e\<in>set es. etype e = EVENT_KEYDOWN \<and> \<not> isModifierKey H (keycode (kbd e))"
    "\<forall>e\<in>set es. 0 \<le> getScancode H (keycode (kbd e))
        \<and> getScancode H (keycode (kbd e)) < int (length (keys s))"
  shows "\<exists>s1. pollEvents H es s = Some s1 \<and> pendingKeys s1 = pendingKeys s @ map kbd es"
  using assms
proof (induction es arbitrary: s)
  case Nil
  then show ?case by simp
next
  case (Cons e es)
  from Cons.prems obtain s2 where s2: "handleEvent H e s = Some s2"
      "pendingKeys s2 = pendingKeys s @ [kbd e]" "length (keys s2) = length (keys s)"
    using handleEvent_keydown [of e H s] by auto
  from Cons.prems s2(3) have
    "\<exists>s1. pollEvents H es s2 = Some s1 \<and> pendingKeys s1 = pendingKeys s2 @ map kbd es"
    by (intro Cons.IH) auto
  with s2 show ?case by auto
qed

lemma readKeys_drain:
  "pendingKeys s = q \<Longrightarrow>
   readKeys H (Suc (length q)) [] s = Some (map (keyCode H) q @ [0], s\<lparr>pendingKeys := []\<rparr>)"
proof (induction q arbitrary: s)
  case Nil
  then show ?case by (simp add: readKey_def)
next
  case (Cons k q)
  have "readKey H [] s = Some (keyCode H k, s\<lparr>pendingKeys := q\<rparr>)"
    using Cons.prems by (simp add: readKey_def)
  moreover have "readKeys H (Suc (length q)) [] (s\<lparr>pendingKeys := q\<rparr>)
      = Some (map (keyCode H) q @ [0], s\<lparr>pendingKeys := q\<rparr>\<lparr>pendingKeys := []\<rparr>)"
    by (rule Cons.IH) simp
  ultimately show ?case by simp
qed

lemma readKeys_poll_first:
  "pollEvents H evs s = Some s1 \<Longrightarrow> readKeys H (Suc n) evs s = readKeys H (Suc n) [] s1"
  by (simp add: readKey_def)

text \<open>
  Claim C5. On a manager with no pending key, when the host has \<open>N\<close> key-down events
  of keys that are not modifiers ready (their scancodes within the key table) and
  delivers nothing afterwards, \<open>N + 1\<close> successive calls of \<^verbatim>\<open>readKey\<close> all return,
  the first \<open>N\<close> with the codes of the keys in the order of arrival, the last with 0.
\<close>

theorem readKey_fifo:
  assumes "pendingKeys s = []"
      and "\<forall>e\<in>set es. etype e = EVENT_KEYDOWN \<and> \<not> isModifierKey H (keycode (kbd e))"
      and "\<forall>e\<in>set es. 0 \<le> getScancode H (keycode (kbd e))
              \<and> getScancode H (keycode (kbd e)) < int (length (keys s))"
  shows "\<exists>s1. readKeys H (Suc (length es)) es s
                 = Some (map (\<lambda>e. keyCode H (kbd e)) es @ [0], s1)"
proof -
  from pollEvents_keydowns [OF assms(2,3)] assms(1)
  obtain s1 where s1: "pollEvents H es s = Some s1" "pendingKeys s1 = map kbd es" by auto
  have "readKeys H (Suc (length es)) es s = readKeys H (Suc (length (map kbd es))) [] s1"
    using readKeys_poll_first [OF s1(1)] by simp
  also have "\<dots> = Some (map (keyCode H) (map kbd es) @ [0], s1\<lparr>pendingKeys := []\<rparr>)"
    by (rule readKeys_drain [OF s1(2)])
  finally show ?thesis by (simp add: comp_def)
qed

text \<open>The keys a and F1, then nothing: 353, 12032, 0.\<close>

theorem readKey_fifo_witness:
  "map_option fst (readKeys scummvm_hdr 3 [keyDown 97 97 0, keyDown 282 0 0] fresh)
     = Some [353, 12032, 0]"
proof -
  let ?es = "[keyDown 97 97 0, keyDown 282 0 0]"
  have a: "pendingKeys fresh = []" by (rule fresh_fields)
  have b: "\<forall>e\<in>set ?es. etype e = EVENT_KEYDOWN \<and> \<not> isModifierKey scummvm_hdr (keycode (kbd e))"
    by (simp add: keyDown_def scummvm_plain_keys)
  have c: "\<forall>e\<in>set ?es. 0 \<le> getScancode scummvm_hdr (keycode (kbd e))
              \<and> getScancode scummvm_hdr (keycode (kbd e)) < int (length (keys fresh))"
    by (simp add: keyDown_def scummvm_scancodes fresh_fields)
  have m: "KBD_CTRL scummvm_hdr = 1" "KBD_ALT scummvm_hdr = 2" "EXTENDED_KEY_CODE scummvm_hdr = 0"
    by (simp_all add: scummvm_hdr_def)
  have k: "map (\<lambda>e. keyCode scummvm_hdr (kbd e)) ?es @ [0] = [353, 12032, 0]"
    by (simp add: keyCode_def keyDown_def scummvm_scancodes scummvm_plain_keys m)
  have n: "Suc (length ?es) = 3" by simp
  from readKey_fifo [OF a b c] obtain s1 where
    "readKeys scummvm_hdr (Suc (length ?es)) ?es fresh
       = Some (map (\<lambda>e. keyCode scummvm_hdr (kbd e)) ?es @ [0], s1)"
    by blast
  then have "readKeys scummvm_hdr 3 ?es fresh = Some ([353, 12032, 0], s1)"
    by (simp only: k n)
  then show ?thesis by simp
qed

subsection \<open>Entry 0 of the key table\<close>

lemma updateKeys_unmapped:
  "getScancode H (keycode k) = 0 \<Longrightarrow> updateKeys H k d s = Some s"
  by (simp add: updateKeys_def)

lemma updateKeys_zero:
  assumes "updateKeys H k d s = Some s1"
  shows "length (keys s1) = length (keys s) \<and> (keys s \<noteq> [] \<longrightarrow> keys s1 ! 0 = keys s ! 0)"
  using assms by (auto simp: updateKeys_def Let_def split: if_splits)

lemma handleEvent_zero:
  assumes "handleEvent H e s = Some s1"
  shows "length (keys s1) = length (keys s) \<and> (keys s \<noteq> [] \<longrightarrow> keys s1 ! 0 = keys s ! 0)"
  using assms
  by (cases "etype e")
     (auto simp: handleEvent_def split: if_splits option.splits dest: updateKeys_zero)

lemma pollEvents_zero:
  "pollEvents H evs s = Some s1 \<Longrightarrow>
   length (keys s1) = length (keys s) \<and> (keys s \<noteq> [] \<longrightarrow> keys s1 ! 0 = keys s ! 0)"
proof (induction evs arbitrary: s)
  case Nil
  then show ?case by simp
next
  case (Cons e evs)
  from Cons.prems obtain s2 where s2: "handleEvent H e s = Some s2" "pollEvents H evs s2 = Some s1"
    by (auto split: option.splits)
  from handleEvent_zero [OF s2(1)] Cons.IH [OF s2(2)] show ?case by auto
qed

lemma call_zero:
  assumes "call H c evs s = Some s1"
  shows "length (keys s1) = length (keys s) \<and> (keys s \<noteq> [] \<longrightarrow> keys s1 ! 0 = keys s ! 0)"
  using assms
  by (cases c)
     (auto simp: call_def keypressed_def readKey_def readEvent_def
           split: option.splits list.splits dest: pollEvents_zero)

lemma calls_zero:
  "calls H cs s = Some s1 \<Longrightarrow>
   length (keys s1) = length (keys s) \<and> (keys s \<noteq> [] \<longrightarrow> keys s1 ! 0 = keys s ! 0)"
proof (induction cs arbitrary: s)
  case Nil
  then show ?case by simp
next
  case (Cons p cs)
  obtain c evs where p: "p = (c, evs)" by (cases p)
  from Cons.prems p obtain s2 where s2: "call H c evs s = Some s2" "calls H cs s2 = Some s1"
    by (auto split: option.splits)
  from call_zero [OF s2(1)] Cons.IH [OF s2(2)] show ?case by auto
qed

text \<open>
  Claim C9. \<^verbatim>\<open>updateKeys\<close> leaves the manager as it is when the keycode has scancode
  0, and after any sequence of polling calls on a freshly constructed manager
  \<^verbatim>\<open>isKeyPressed(0)\<close> is never true: it returns false whenever the key table has an
  entry 0.
\<close>

theorem key_zero_never_pressed:
  assumes "calls H cs (EventsManager_init H we ae cd) = Some s"
  shows "(\<forall>k d t. getScancode H (keycode k) = 0 \<longrightarrow> updateKeys H k d t = Some t)
       \<and> isKeyPressed s 0 \<noteq> Some True
       \<and> (0 < AGS3 H allegro_KEY_MAX \<longrightarrow> isKeyPressed s 0 = Some False)"
proof -
  let ?i = "EventsManager_init H we ae cd"
  have len: "length (keys s) = nat (AGS3 H allegro_KEY_MAX)"
    using calls_zero [OF assms] by (simp add: EventsManager_init_def)
  have z: "keys ?i \<noteq> [] \<longrightarrow> keys ?i ! 0 = False"
    by (auto simp: EventsManager_init_def)
  have "keys s \<noteq> [] \<longrightarrow> keys s ! 0 = False"
    using calls_zero [OF assms] z by auto
  then show ?thesis using len
    by (auto simp: isKeyPressed_def updateKeys_unmapped)
qed

text \<open>F13 (unmapped) and a go down: entry 0 stays false, entry 1 is set.\<close>

theorem key_zero_never_pressed_witness:
  "\<exists>s. calls scummvm_hdr [(PollEvents, [keyDown 294 0 0, keyDown 97 97 0])] fresh = Some s
       \<and> isKeyPressed s 0 = Some False \<and> isKeyPressed s 1 = Some True"
proof -
  have "\<exists>s. calls scummvm_hdr [(PollEvents, [keyDown 294 0 0, keyDown 97 97 0])]
          (EventsManager_init scummvm_hdr False False True) = Some s
       \<and> isKeyPressed s 1 = Some True"
    using fresh_fields
    by (simp add: call_def handleEvent_def updateKeys_def keyDown_def scummvm_scancodes
          scummvm_plain_keys isKeyPressed_def fresh_def)
  then obtain s where s: "calls scummvm_hdr [(PollEvents, [keyDown 294 0 0, keyDown 97 97 0])]
          (EventsManager_init scummvm_hdr False False True) = Some s"
      "isKeyPressed s 1 = Some True"
    by blast
  have "0 < AGS3 scummvm_hdr allegro_KEY_MAX" by (simp add: scummvm_hdr_def)
  with key_zero_never_pressed [OF s(1)] s show ?thesis
    by (auto simp: fresh_def)
qed

subsection \<open>The code 0 for a key that was pending\<close>

text \<open>
  Claim C10. A key-down event of a key that is no modifier, has scancode 0, is not an
  extended key, carries neither ctrl nor alt and has character code 0 is pushed onto
  the queue of pending keys (\<^verbatim>\<open>keypressed\<close> reports a pending key). With that key
  state at the head of the queue, \<^verbatim>\<open>readKey\<close> pops it (the rest of the queue stays)
  and returns 0, the value it returns on an empty queue; polling the event and reading
  it back in one call leaves the manager as a call with no event at all does.
\<close>

theorem readKey_zero_after_pop:
  assumes "pendingKeys s = []"
      and "etype e = EVENT_KEYDOWN"
      and "\<not> isModifierKey H (keycode (kbd e))"
      and "getScancode H (keycode (kbd e)) = 0"
      and "\<not> isExtendedKey H (keycode (kbd e))"
      and "uint (flags (kbd e)) AND (KBD_CTRL H OR KBD_ALT H) = 0"
      and "ascii (kbd e) = 0"
  shows "pollEvents H [e] s = Some (s\<lparr>pendingKeys := [kbd e]\<rparr>)
       \<and> keypressed H [e] s = Some (True, s\<lparr>pendingKeys := [kbd e]\<rparr>)
       \<and> readKey H [] (s\<lparr>pendingKeys := kbd e # rest\<rparr>)
           = Some (0, s\<lparr>pendingKeys := rest\<rparr>)
       \<and> readKey H [] (s\<lparr>pendingKeys := [kbd e]\<rparr>) = Some (0, s)
       \<and> readKey H [e] s = Some (0, s)
       \<and> readKey H [] s = Some (0, s)"
  using assms
  by (simp add: keypressed_def readKey_def handleEvent_def updateKeys_def keyCode_def)

text \<open>
  F13 on a fresh manager is such a key: it is queued, and read back as 0 with the key
  a left behind it in the queue.
\<close>

theorem readKey_zero_after_pop_witness:
  "pollEvents scummvm_hdr [keyDown 294 0 0] fresh
     = Some (fresh\<lparr>pendingKeys := [kbd (keyDown 294 0 0)]\<rparr>)
   \<and> keypressed scummvm_hdr [keyDown 294 0 0] fresh
     = Some (True, fresh\<lparr>pendingKeys := [kbd (keyDown 294 0 0)]\<rparr>)
   \<and> readKey scummvm_hdr []
        (fresh\<lparr>pendingKeys := [kbd (keyDown 294 0 0), kbd (keyDown 97 97 0)]\<rparr>)
     = Some (0, fresh\<lparr>pendingKeys := [kbd (keyDown 97 97 0)]\<rparr>)
   \<and> readKey scummvm_hdr [] (fresh\<lparr>pendingKeys := [kbd (keyDown 294 0 0)]\<rparr>)
     = Some (0, fresh)
   \<and> readKey scummvm_hdr [keyDown 294 0 0] fresh = Some (0, fresh)
   \<and> readKey scummvm_hdr [] fresh = Some (0, fresh)"
proof -
  have m: "KBD_CTRL scummvm_hdr = 1" "KBD_ALT scummvm_hdr = 2"
    by (simp_all add: scummvm_hdr_def)
  show ?thesis
    by (rule readKey_zero_after_pop)
       (simp_all add: keyDown_def fresh_fields scummvm_scancodes scummvm_plain_keys m)
qed

section \<open>Properties of the text field\<close>

subsection \<open>What the helpers leave alone\<close>

lemma initHighlight_frame [simp]:
  "editString (initHighlight w) = editString w"
  "caretPos (initHighlight w) = caretPos w"
  "sent (initHighlight w) = sent w"
  "cmd (initHighlight w) = cmd w"
  "clipboard (initHighlight w) = clipboard w"
  by (simp_all add: initHighlight_def)

lemma sendCommand_frame [simp]:
  "editString (sendCommand c d w) = editString w"
  "caretPos (sendCommand c d w) = caretPos w"
  "sent (sendCommand c d w) = sent w @ [(c, d)]"
  "cmd (sendCommand c d w) = cmd w"
  by (simp_all add: sendCommand_def)

lemma markAsDirty_frame [simp]:
  "editString (markAsDirty w) = editString w"
  "caretPos (markAsDirty w) = caretPos w"
  "sent (markAsDirty w) = sent w"
  "cmd (markAsDirty w) = cmd w"
  "highlightVisible (markAsDirty w) = highlightVisible w"
  by (simp_all add: markAsDirty_def)

lemma adjustOffset_shape:
  "\<exists>off. snd (adjustOffset E w) = w\<lparr>editScrollOffset := off\<rparr>"
  unfolding adjustOffset_def Let_def
  by (auto intro: exI [of _ "editScrollOffset w"])

lemma adjustOffset_frame [simp]:
  "editString (snd (adjustOffset E w)) = editString w"
  "caretPos (snd (adjustOffset E w)) = caretPos w"
  "sent (snd (adjustOffset E w)) = sent w"
  "cmd (snd (adjustOffset E w)) = cmd w"
  "highlightVisible (snd (adjustOffset E w)) = highlightVisible w"
  "highlightPos (snd (adjustOffset E w)) = highlightPos w"
  "highlightCharacterCount (snd (adjustOffset E w)) = highlightCharacterCount w"
  using adjustOffset_shape [of E w] by auto

lemma setCaretPos_Some:
  assumes "setCaretPos E n w = Some (r, w1)"
  shows "0 \<le> n" "n \<le> int (length (editString w))" "caretPos w1 = n"
    "editString w1 = editString w" "sent w1 = sent w" "cmd w1 = cmd w"
    "highlightVisible w1 = highlightVisible w"
proof -
  from assms have n: "0 \<le> n \<and> n \<le> int (length (editString w))"
      and w1: "w1 = snd (adjustOffset E (w\<lparr>caretPos := n\<rparr>))"
    by (auto simp: setCaretPos_def split: if_splits)
  from n show "0 \<le> n" "n \<le> int (length (editString w))" by simp_all
  from w1 show "caretPos w1 = n" "editString w1 = editString w" "sent w1 = sent w"
      "cmd w1 = cmd w" "highlightVisible w1 = highlightVisible w"
    by simp_all
qed

lemma setCaretPos_total:
  "0 \<le> n \<Longrightarrow> n \<le> int (length (editString w)) \<Longrightarrow> \<exists>r w1. setCaretPos E n w = Some (r, w1)"
  by (cases "adjustOffset E (w\<lparr>caretPos := n\<rparr>)") (simp add: setCaretPos_def)

lemma drawCaret_frame [simp]:
  "editString (drawCaret E b w) = editString w"
  "caretPos (drawCaret E b w) = caretPos w"
  "sent (drawCaret E b w) = sent w"
  "cmd (drawCaret E b w) = cmd w"
  "clipboard (drawCaret E b w) = clipboard w"
  by (simp_all add: drawCaret_def)

lemma makeCaretVisible_frame [simp]:
  "editString (makeCaretVisible E w) = editString w"
  "caretPos (makeCaretVisible E w) = caretPos w"
  "sent (makeCaretVisible E w) = sent w"
  "cmd (makeCaretVisible E w) = cmd w"
  by (simp_all add: makeCaretVisible_def)

lemma setCaretPos_caretOK:
  assumes "setCaretPos E n w = Some (r, w1)"
  shows "caretOK w1"
  using setCaretPos_Some(1-4) [OF assms] by (simp add: caretOK_def)

lemma caretOK_initHighlight [simp]: "caretOK (initHighlight w) = caretOK w"
  by (simp add: caretOK_def)

lemma caretOK_sendCommand [simp]: "caretOK (sendCommand c d w) = caretOK w"
  by (simp add: caretOK_def)

lemma caretOK_markAsDirty [simp]: "caretOK (markAsDirty w) = caretOK w"
  by (simp add: caretOK_def)

lemma caretOK_drawCaret [simp]: "caretOK (drawCaret E b w) = caretOK w"
  by (simp add: caretOK_def)

lemma caretOK_makeCaretVisible [simp]: "caretOK (makeCaretVisible E w) = caretOK w"
  by (simp add: caretOK_def)

lemma tryInsertChar_Some:
  assumes "tryInsertChar c p w = Some (ok, w1)"
  shows "caretPos w1 = caretPos w" "sent w1 = sent w" "cmd w1 = cmd w"
    "highlightVisible w1 = highlightVisible w"
    "ok \<Longrightarrow> length (editString w1) = Suc (length (editString w))"
    "\<not> ok \<Longrightarrow> w1 = w"
  using assms
  by (auto simp: tryInsertChar_def insertChar_def split: if_splits option.splits)

subsection \<open>Concrete values\<close>

lemma scummvm_labels: "distinct (caseLabels scummvm_hdr)"
  by (simp add: caseLabels_def scummvm_hdr_def)

lemma scummvm_keycodes:
  "Common scummvm_hdr KEYCODE_v = 118"
  "Common scummvm_hdr KEYCODE_RIGHT = 275"
  "Common scummvm_hdr KEYCODE_LEFT = 276"
  "Common scummvm_hdr KEYCODE_DELETE = 127"
  by (simp_all add: scummvm_hdr_def)

lemma scummvm_no_remap:
  "kc < 256 \<or> 266 < kc \<Longrightarrow> remapKeypad scummvm_hdr \<lparr>keycode = kc, ascii = a, flags = f\<rparr> = Some kc"
  by (auto simp: remapKeypad_def scummvm_hdr_def)

lemma field_env_enabled: "enabled field_env"
  by (simp add: field_env_def)

subsection \<open>The caret stays within the text\<close>

lemma defaultKeyDownHandler_caretOK:
  assumes "defaultKeyDownHandler E st w d f h = Some (w1, d1, f1, h1)" "caretOK w"
  shows "caretOK w1"
proof (cases "ascii st < 256")
  case False
  with assms show ?thesis by (simp add: defaultKeyDownHandler_def split: if_splits)
next
  case True
  show ?thesis
  proof (cases "tryInsertChar (ucast (ascii st)) (caretPos w) w")
    case None
    with assms True show ?thesis by (simp add: defaultKeyDownHandler_def split: if_splits)
  next
    case (Some p)
    obtain ok w2 where p: "p = (ok, w2)" by (cases p)
    note t = tryInsertChar_Some [OF Some [unfolded p]]
    show ?thesis
    proof (cases ok)
      case False
      with t(6) have "w2 = w" by simp
      with assms True Some p False show ?thesis
        by (auto simp: defaultKeyDownHandler_def split: if_splits)
    next
      case ok: True
      show ?thesis
      proof (cases "highlightVisible w")
        case False
        with assms(1) True Some p ok
        have "w1 = sendCommand (cmd w2) 0 (initHighlight (w2\<lparr>caretPos := caretPos w2 + 1\<rparr>))"
          by (simp add: defaultKeyDownHandler_def)
        then show ?thesis using t(1) t(5) [OF ok] assms(2) by (simp add: caretOK_def)
      next
        case hv: True
        with assms(1) True Some p ok obtain w3 r w4 where
          "setCaretPos E (highlightPos w3 + 1) w3 = Some (r, w4)"
          "w1 = sendCommand (cmd w4) 0 (initHighlight w4)"
          by (auto simp: defaultKeyDownHandler_def split: Option.bind_splits)
        then show ?thesis using setCaretPos_caretOK by simp
      qed
    qed
  qed
qed

lemma keyReturn_caretOK:
  assumes "keyReturn E w = Some (w1, d1, f1, h1)" "caretOK w"
      and "\<forall>v v1. caretOK v \<longrightarrow> endEditMode E v = Some v1 \<longrightarrow> caretOK v1"
  shows "caretOK w1"
proof -
  from assms(1) have e: "endEditMode E (initHighlight w) = Some w1"
    by (auto simp: keyReturn_def split: Option.bind_splits)
  have "caretOK (initHighlight w)" using assms(2) by simp
  with assms(3) e show ?thesis by blast
qed

lemma keyEscape_caretOK:
  assumes "keyEscape E w = Some (w1, d1, f1, h1)" "caretOK w"
      and "\<forall>v v1. caretOK v \<longrightarrow> abortEditMode E v = Some v1 \<longrightarrow> caretOK v1"
  shows "caretOK w1"
proof -
  from assms(1) have e: "abortEditMode E (initHighlight w) = Some w1"
    by (auto simp: keyEscape_def split: Option.bind_splits)
  have "caretOK (initHighlight w)" using assms(2) by simp
  with assms(3) e show ?thesis by blast
qed

lemma deleteHighlight_caretOK:
  assumes "deleteHighlight E w = Some (w1, d1, f1, h1)"
  shows "caretOK w1"
proof -
  from assms obtain w2 r w3 where
    "setCaretPos E (highlightPos w2) w2 = Some (r, w3)"
    "w1 = sendCommand (cmd w3) 0 (initHighlight w3)"
    by (auto simp: deleteHighlight_def split: Option.bind_splits)
  then show ?thesis using setCaretPos_caretOK by simp
qed

lemma keyBackspace_caretOK:
  assumes "keyBackspace E w = Some (w1, d1, f1, h1)" "caretOK w"
  shows "caretOK w1"
proof (cases "highlightVisible w")
  case True
  with assms(1) show ?thesis by (simp add: keyBackspace_def deleteHighlight_caretOK)
next
  case False
  show ?thesis
  proof (cases "caretPos w > 0")
    case True
    with False assms(1) obtain str where
      "deleteChar (caretPos w - 1) (editString w) = Some str"
      "w1 = sendCommand (cmd w) 0 (initHighlight (w\<lparr>caretPos := caretPos w - 1, editString := str\<rparr>))"
      by (auto simp: keyBackspace_def Let_def split: Option.bind_splits)
    then show ?thesis using assms(2) True
      by (auto simp: caretOK_def deleteChar_def split: if_splits)
  next
    case False
    with \<open>\<not> highlightVisible w\<close> assms show ?thesis by (simp add: keyBackspace_def)
  qed
qed

lemma keyDelete_caretOK:
  assumes "keyDelete E w = Some (w1, d1, f1, h1)" "caretOK w"
  shows "caretOK w1"
proof (cases "highlightVisible w")
  case True
  with assms(1) show ?thesis by (simp add: keyDelete_def deleteHighlight_caretOK)
next
  case False
  show ?thesis
  proof (cases "caretPos w < int (length (editString w))")
    case True
    with False assms(1) obtain str where
      "deleteChar (caretPos w) (editString w) = Some str"
      "w1 = sendCommand (cmd w) 0 (initHighlight (w\<lparr>editString := str\<rparr>))"
      by (auto simp: keyDelete_def split: Option.bind_splits)
    then show ?thesis using assms(2) True
      by (auto simp: caretOK_def deleteChar_def split: if_splits)
  next
    case False
    with \<open>\<not> highlightVisible w\<close> assms show ?thesis by (simp add: keyDelete_def)
  qed
qed

lemma keyEnd_caretOK:
  assumes "keyEnd E w = Some (w1, d1, f1, h1)"
  shows "caretOK w1"
proof -
  from assms obtain n r where "setCaretPos E n (initHighlight w) = Some (r, w1)"
    by (auto simp: keyEnd_def Let_def split: Option.bind_splits)
  then show ?thesis by (rule setCaretPos_caretOK)
qed

lemma keyLeft_caretOK:
  assumes "keyLeft H E st w = Some (w1, d1, f1, h1)" "caretOK w"
  shows "caretOK w1"
proof (cases "uint (flags st) AND KBD_SHIFT H \<noteq> 0")
  case True
  with assms(1) have "caretPos w1 = caretPos w \<and> editString w1 = editString w"
    by (auto simp: keyLeft_def Let_def split: if_splits Option.bind_splits)
  with assms(2) show ?thesis by (simp add: caretOK_def)
next
  case False
  show ?thesis
  proof (cases "caretPos w > 0")
    case True
    with False assms(1) obtain r w2 where
      "setCaretPos E (caretPos w - 1) w = Some (r, w2)"
      "w1 = sendCommand (cmd w2) 0 (initHighlight w2)"
      by (auto simp: keyLeft_def split: Option.bind_splits)
    then show ?thesis using setCaretPos_caretOK by simp
  next
    case nm: False
    with False assms show ?thesis by (simp add: keyLeft_def)
  qed
qed

lemma keyRight_caretOK:
  assumes "keyRight E w = Some (w1, d1, f1, h1)" "caretOK w"
  shows "caretOK w1"
proof (cases "caretPos w < int (length (editString w))")
  case True
  with assms(1) obtain r w2 where
    "setCaretPos E (caretPos w + 1) w = Some (r, w2)"
    "w1 = sendCommand (cmd w2) 0 (initHighlight (sendCommand (cmd w2) 0 (initHighlight w2)))"
    by (auto simp: keyRight_def split: Option.bind_splits)
  then show ?thesis using setCaretPos_caretOK by simp
next
  case False
  with assms(1) have "w1 = sendCommand (cmd w) 0 (initHighlight w)"
    by (simp add: keyRight_def)
  with assms(2) show ?thesis by simp
qed

lemma keyHome_caretOK:
  assumes "keyHome E w = Some (w1, d1, f1, h1)"
  shows "caretOK w1"
proof -
  from assms obtain r w2 where
    "setCaretPos E 0 (initHighlight w) = Some (r, w2)" "w1 = sendCommand (cmd w2) 0 w2"
    by (auto simp: keyHome_def split: Option.bind_splits)
  then show ?thesis using setCaretPos_caretOK by simp
qed

lemma pasteChars_caretOK:
  "pasteChars cs w = Some w1 \<Longrightarrow> caretOK w \<Longrightarrow> caretOK w1"
proof (induction cs arbitrary: w)
  case Nil
  then show ?case by simp
next
  case (Cons c cs)
  from Cons.prems(1) obtain ok w2 where
    t: "tryInsertChar (ucast c) (caretPos w) w = Some (ok, w2)" and
    p: "pasteChars cs (if ok then w2\<lparr>caretPos := caretPos w2 + 1\<rparr> else w2) = Some w1"
    by (auto split: Option.bind_splits)
  have "caretOK (if ok then w2\<lparr>caretPos := caretPos w2 + 1\<rparr> else w2)"
    using tryInsertChar_Some [OF t] Cons.prems(2) by (auto simp: caretOK_def)
  with Cons.IH [OF p] show ?case .
qed

lemma keyV_caretOK:
  assumes "keyV H E st w = Some (w1, d1, f1, h1)" "caretOK w"
  shows "caretOK w1"
proof (cases "uint (flags st) AND KBD_CTRL H \<noteq> 0")
  case True
  show ?thesis
  proof (cases "clipboard w")
    case None
    with True assms show ?thesis by (simp add: keyV_def)
  next
    case (Some clip)
    with True assms(1) have "pasteChars (trim E clip) (initHighlight w) = Some w1"
      by (auto simp: keyV_def split: Option.bind_splits)
    from pasteChars_caretOK [OF this] assms(2) show ?thesis by simp
  qed
next
  case False
  with assms(1) have "defaultKeyDownHandler E st w False False True = Some (w1, d1, f1, h1)"
    by (simp add: keyV_def)
  from defaultKeyDownHandler_caretOK [OF this assms(2)] show ?thesis .
qed

lemma keyC_caretOK:
  assumes "keyC H E st w = Some (w1, d1, f1, h1)" "caretOK w"
  shows "caretOK w1"
proof (cases "uint (flags st) AND KBD_CTRL H \<noteq> 0")
  case True
  with assms(1) have "caretPos w1 = caretPos w \<and> editString w1 = editString w"
    by (auto simp: keyC_def split: if_splits)
  with assms(2) show ?thesis by (simp add: caretOK_def)
next
  case False
  with assms(1) have "defaultKeyDownHandler E st w False False True = Some (w1, d1, f1, h1)"
    by (simp add: keyC_def)
  from defaultKeyDownHandler_caretOK [OF this assms(2)] show ?thesis .
qed

lemma keyAE_caretOK:
  assumes "keyAE H E st w = Some (w1, d1, f1, h1)" "caretOK w"
  shows "caretOK w1"
proof (cases "uint (flags st) AND KBD_CTRL H \<noteq> 0")
  case True
  with assms(1) consider (m) n r where "setCaretPos E n w = Some (r, w1)" | (s) "w1 = w"
    by (auto simp: keyAE_def split: if_splits Option.bind_splits)
  then show ?thesis
  proof cases
    case m
    then show ?thesis by (rule setCaretPos_caretOK)
  next
    case s
    with assms(2) show ?thesis by simp
  qed
next
  case False
  with assms(1) have "defaultKeyDownHandler E st w False False True = Some (w1, d1, f1, h1)"
    by (simp add: keyAE_def)
  from defaultKeyDownHandler_caretOK [OF this assms(2)] show ?thesis .
qed

lemma dispatch_cases:
  assumes "dispatch H E st w = Some x"
  obtains "keyReturn E w = Some x" | "keyEscape E w = Some x" | "keyBackspace E w = Some x"
    | "keyDelete E w = Some x" | "keyEnd E w = Some x" | "keyLeft H E st w = Some x"
    | "keyRight E w = Some x" | "keyHome E w = Some x" | "keyV H E st w = Some x"
    | "keyC H E st w = Some x" | "keyAE H E st w = Some x"
    | "defaultKeyDownHandler E st w False False True = Some x"
  using assms unfolding dispatch_def Let_def by (simp split: if_splits)

lemma dispatch_caretOK:
  assumes "dispatch H E st w = Some (w1, d1, f1, h1)" "caretOK w"
      and "\<forall>v v1. caretOK v \<longrightarrow> endEditMode E v = Some v1 \<longrightarrow> caretOK v1"
      and "\<forall>v v1. caretOK v \<longrightarrow> abortEditMode E v = Some v1 \<longrightarrow> caretOK v1"
  shows "caretOK w1"
  using assms(1)
proof (cases rule: dispatch_cases)
  case 1 then show ?thesis by (rule keyReturn_caretOK [OF _ assms(2,3)])
next
  case 2 then show ?thesis by (rule keyEscape_caretOK [OF _ assms(2,4)])
next
  case 3 then show ?thesis by (rule keyBackspace_caretOK [OF _ assms(2)])
next
  case 4 then show ?thesis by (rule keyDelete_caretOK [OF _ assms(2)])
next
  case 5 then show ?thesis by (rule keyEnd_caretOK)
next
  case 6 then show ?thesis by (rule keyLeft_caretOK [OF _ assms(2)])
next
  case 7 then show ?thesis by (rule keyRight_caretOK [OF _ assms(2)])
next
  case 8 then show ?thesis by (rule keyHome_caretOK)
next
  case 9 then show ?thesis by (rule keyV_caretOK [OF _ assms(2)])
next
  case 10 then show ?thesis by (rule keyC_caretOK [OF _ assms(2)])
next
  case 11 then show ?thesis by (rule keyAE_caretOK [OF _ assms(2)])
next
  case 12 then show ?thesis by (rule defaultKeyDownHandler_caretOK [OF _ assms(2)])
qed

text \<open>
  Claim C7. If the caret position is between 0 and the length of the edit string
  before \<^verbatim>\<open>handleKeyDown\<close>, it is so after the call, whatever the key and the branch
  taken: backspace, delete, the arrows, home and end, paste, copy, the default insert
  and the replacement of a selection. The two callbacks of the subclass, called for
  return and escape, are taken to keep the caret within the text.
\<close>

theorem handleKeyDown_caret_in_range:
  assumes "caretOK w"
      and "handleKeyDown H E st w = Some (h, w1)"
      and "\<forall>v v1. caretOK v \<longrightarrow> endEditMode E v = Some v1 \<longrightarrow> caretOK v1"
      and "\<forall>v v1. caretOK v \<longrightarrow> abortEditMode E v = Some v1 \<longrightarrow> caretOK v1"
  shows "0 \<le> caretPos w1 \<and> caretPos w1 \<le> int (length (editString w1))"
proof (cases "enabled E")
  case False
  with assms(1,2) show ?thesis by (simp add: handleKeyDown_def caretOK_def)
next
  case True
  let ?w0 = "if caretVisible w then drawCaret E True w else w"
  from True assms(2) obtain kc w2 d f where
    k: "remapKeypad H st = Some kc" and
    d: "dispatch H E (st\<lparr>keycode := kc\<rparr>) ?w0 = Some (w2, d, f, h)" and
    w1: "w1 = (let w3 = (if d then markAsDirty w2 else w2)
               in if f then makeCaretVisible E w3 else w3)"
    by (auto simp: handleKeyDown_def Let_def split: Option.bind_splits)
  have "caretOK ?w0" using assms(1) by simp
  from dispatch_caretOK [OF d this assms(3,4)] have "caretOK w2" .
  then have "caretOK w1" unfolding w1 by (simp add: Let_def)
  then show ?thesis by (simp add: caretOK_def)
qed

text \<open>Typing a into an empty field: the text is a, the caret is at 1.\<close>

theorem handleKeyDown_caret_in_range_witness:
  "caretOK (init 7 None)
   \<and> (\<exists>w1. handleKeyDown scummvm_hdr field_env \<lparr>keycode = 97, ascii = 97, flags = 0\<rparr>
              (init 7 None) = Some (True, w1)
          \<and> editString w1 = [97] \<and> caretPos w1 = 1
          \<and> 0 \<le> caretPos w1 \<and> caretPos w1 \<le> int (length (editString w1)))"
proof -
  let ?st = "\<lparr>keycode = 97, ascii = 97, flags = 0\<rparr> :: KeyState"
  have ok: "caretOK (init 7 None)" by (simp add: caretOK_def init_def)
  have r: "remapKeypad scummvm_hdr ?st = Some 97" by (simp add: scummvm_no_remap)
  have d: "dispatch scummvm_hdr field_env ?st v
      = defaultKeyDownHandler field_env ?st v False False True" for v
    by (simp add: dispatch_def scummvm_hdr_def field_env_def)
  have "\<exists>w1. handleKeyDown scummvm_hdr field_env ?st (init 7 None) = Some (True, w1)
          \<and> editString w1 = [97] \<and> caretPos w1 = 1"
    by (simp add: handleKeyDown_def field_env_enabled r d defaultKeyDownHandler_def
          tryInsertChar_def insertChar_def init_def)
  then obtain w1 where w1: "handleKeyDown scummvm_hdr field_env ?st (init 7 None) = Some (True, w1)"
      "editString w1 = [97]" "caretPos w1 = 1"
    by blast
  have e: "\<forall>v v1. caretOK v \<longrightarrow> endEditMode field_env v = Some v1 \<longrightarrow> caretOK v1"
      "\<forall>v v1. caretOK v \<longrightarrow> abortEditMode field_env v = Some v1 \<longrightarrow> caretOK v1"
    by (simp_all add: field_env_def)
  from handleKeyDown_caret_in_range [OF ok w1(1) e] w1 ok show ?thesis by blast
qed

subsection \<open>The arrows and the change notification\<close>

lemma keyRight_result:
  assumes "caretOK w"
  shows "\<exists>w1. keyRight E w = Some (w1, True, True, True)
           \<and> sent w1 = sent w @ (if caretPos w < int (length (editString w))
                                    then [(cmd w, 0), (cmd w, 0)] else [(cmd w, 0)])
           \<and> caretPos w1 = (if caretPos w < int (length (editString w))
                              then caretPos w + 1 else caretPos w)"
proof (cases "caretPos w < int (length (editString w))")
  case True
  with assms have "0 \<le> caretPos w + 1" "caretPos w + 1 \<le> int (length (editString w))"
    by (simp_all add: caretOK_def)
  from setCaretPos_total [OF this] obtain r w2 where
    s: "setCaretPos E (caretPos w + 1) w = Some (r, w2)" by blast
  note f = setCaretPos_Some [OF s]
  from s True have "keyRight E w
      = Some (sendCommand (cmd w2) 0 (initHighlight (sendCommand (cmd w2) 0 (initHighlight w2))),
              True, True, True)"
    by (simp add: keyRight_def)
  then show ?thesis using True f by simp
next
  case False
  then show ?thesis by (simp add: keyRight_def)
qed

lemma keyLeft_result:
  assumes "caretOK w" "uint (flags st) AND KBD_SHIFT H = 0"
  shows "\<exists>w1. keyLeft H E st w = Some (w1, True, True, True)
           \<and> sent w1 = (if caretPos w > 0 then sent w @ [(cmd w, 0)] else sent w)
           \<and> caretPos w1 = (if caretPos w > 0 then caretPos w - 1 else caretPos w)"
proof (cases "caretPos w > 0")
  case True
  with assms have "0 \<le> caretPos w - 1" "caretPos w - 1 \<le> int (length (editString w))"
    by (simp_all add: caretOK_def)
  from setCaretPos_total [OF this] obtain r w2 where
    s: "setCaretPos E (caretPos w - 1) w = Some (r, w2)" by blast
  note f = setCaretPos_Some [OF s]
  from s True assms(2) have "keyLeft H E st w
      = Some (sendCommand (cmd w2) 0 (initHighlight w2), True, True, True)"
    by (simp add: keyLeft_def)
  then show ?thesis using True f by simp
next
  case False
  with assms(2) show ?thesis by (simp add: keyLeft_def)
qed

lemma dispatch_RIGHT:
  assumes "distinct (caseLabels H)" "keycode st = Common H KEYCODE_RIGHT"
  shows "dispatch H E st w = keyRight E w"
  using assms by (auto simp: dispatch_def caseLabels_def)

lemma dispatch_LEFT:
  assumes "distinct (caseLabels H)" "keycode st = Common H KEYCODE_LEFT"
  shows "dispatch H E st w = keyLeft H E st w"
  using assms by (auto simp: dispatch_def caseLabels_def)

lemma handleKeyDown_after_dispatch:
  assumes "enabled E" "remapKeypad H st = Some kc"
      and "dispatch H E (st\<lparr>keycode := kc\<rparr>) (if caretVisible w then drawCaret E True w else w)
             = Some (w1, True, True, h)"
  shows "handleKeyDown H E st w = Some (h, makeCaretVisible E (markAsDirty w1))"
  using assms by (simp add: handleKeyDown_def)

text \<open>
  Claim C6. On an enabled widget whose caret is within the text, the right arrow
  (pressed, or remapped from the keypad) sends the change notification in every case,
  also when the caret is at the end of the text and stays there; the left arrow
  without shift sends it only when the caret is greater than 0 and moves. When the
  right arrow moves the caret, the notification is sent twice.
\<close>

theorem right_notifies_always_left_on_move:
  assumes "enabled E" and "caretOK w" and "distinct (caseLabels H)"
  shows "(remapKeypad H st = Some (Common H KEYCODE_RIGHT) \<longrightarrow>
            (\<exists>w1. handleKeyDown H E st w = Some (True, w1)
               \<and> sent w1 = sent w @ (if caretPos w < int (length (editString w))
                                        then [(cmd w, 0), (cmd w, 0)] else [(cmd w, 0)])
               \<and> caretPos w1 = (if caretPos w < int (length (editString w))
                                  then caretPos w + 1 else caretPos w)))
       \<and> (remapKeypad H st = Some (Common H KEYCODE_LEFT)
            \<and> uint (flags st) AND KBD_SHIFT H = 0 \<longrightarrow>
            (\<exists>w1. handleKeyDown H E st w = Some (True, w1)
               \<and> sent w1 = (if caretPos w > 0 then sent w @ [(cmd w, 0)] else sent w)
               \<and> caretPos w1 = (if caretPos w > 0 then caretPos w - 1 else caretPos w)))"
proof (intro conjI impI)
  let ?w0 = "if caretVisible w then drawCaret E True w else w"
  have ok0: "caretOK ?w0" using assms(2) by simp
  have same: "sent ?w0 = sent w" "cmd ?w0 = cmd w" "caretPos ?w0 = caretPos w"
    "editString ?w0 = editString w"
    by simp_all
  {
    assume k: "remapKeypad H st = Some (Common H KEYCODE_RIGHT)"
    let ?st = "st\<lparr>keycode := Common H KEYCODE_RIGHT\<rparr>"
    from keyRight_result [OF ok0, of E] obtain w1 where
      r: "keyRight E ?w0 = Some (w1, True, True, True)"
        "sent w1 = sent ?w0 @ (if caretPos ?w0 < int (length (editString ?w0))
                                    then [(cmd ?w0, 0), (cmd ?w0, 0)] else [(cmd ?w0, 0)])"
        "caretPos w1 = (if caretPos ?w0 < int (length (editString ?w0))
                              then caretPos ?w0 + 1 else caretPos ?w0)"
      by blast
    have "dispatch H E ?st ?w0 = Some (w1, True, True, True)"
      using dispatch_RIGHT [OF assms(3), of ?st E ?w0] r(1) by simp
    from handleKeyDown_after_dispatch [OF assms(1) k this]
    show "\<exists>w1. handleKeyDown H E st w = Some (True, w1)
               \<and> sent w1 = sent w @ (if caretPos w < int (length (editString w))
                                        then [(cmd w, 0), (cmd w, 0)] else [(cmd w, 0)])
               \<and> caretPos w1 = (if caretPos w < int (length (editString w))
                                  then caretPos w + 1 else caretPos w)"
      using r(2,3) unfolding same by simp
  }
  {
    assume "remapKeypad H st = Some (Common H KEYCODE_LEFT)
            \<and> uint (flags st) AND KBD_SHIFT H = 0"
    then have k: "remapKeypad H st = Some (Common H KEYCODE_LEFT)"
      and ns: "uint (flags st) AND KBD_SHIFT H = 0" by simp_all
    let ?st = "st\<lparr>keycode := Common H KEYCODE_LEFT\<rparr>"
    have ns': "uint (flags ?st) AND KBD_SHIFT H = 0" using ns by simp
    from keyLeft_result [OF ok0 ns', of E] obtain w1 where
      r: "keyLeft H E ?st ?w0 = Some (w1, True, True, True)"
        "sent w1 = (if caretPos ?w0 > 0 then sent ?w0 @ [(cmd ?w0, 0)] else sent ?w0)"
        "caretPos w1 = (if caretPos ?w0 > 0 then caretPos ?w0 - 1 else caretPos ?w0)"
      by blast
    have "dispatch H E ?st ?w0 = Some (w1, True, True, True)"
      using dispatch_LEFT [OF assms(3), of ?st E ?w0] r(1) by simp
    from handleKeyDown_after_dispatch [OF assms(1) k this]
    show "\<exists>w1. handleKeyDown H E st w = Some (True, w1)
               \<and> sent w1 = (if caretPos w > 0 then sent w @ [(cmd w, 0)] else sent w)
               \<and> caretPos w1 = (if caretPos w > 0 then caretPos w - 1 else caretPos w)"
      using r(2,3) unfolding same by simp
  }
qed

text \<open>
  On an empty field the right arrow sends one notification and the caret stays at 0;
  the left arrow sends none.
\<close>

theorem right_notifies_always_left_on_move_witness:
  "(\<exists>w1. handleKeyDown scummvm_hdr field_env \<lparr>keycode = 275, ascii = 0, flags = 0\<rparr>
            (init 7 None) = Some (True, w1)
        \<and> sent w1 = [(7, 0)] \<and> caretPos w1 = 0)
   \<and> (\<exists>w1. handleKeyDown scummvm_hdr field_env \<lparr>keycode = 276, ascii = 0, flags = 0\<rparr>
            (init 7 None) = Some (True, w1)
        \<and> sent w1 = [] \<and> caretPos w1 = 0)"
proof -
  let ?r = "\<lparr>keycode = 275, ascii = 0, flags = 0\<rparr> :: KeyState"
  let ?l = "\<lparr>keycode = 276, ascii = 0, flags = 0\<rparr> :: KeyState"
  have ok: "caretOK (init 7 None)" by (simp add: caretOK_def init_def)
  have r: "remapKeypad scummvm_hdr ?r = Some (Common scummvm_hdr KEYCODE_RIGHT)"
    by (simp add: scummvm_no_remap scummvm_keycodes)
  have l1: "remapKeypad scummvm_hdr ?l = Some (Common scummvm_hdr KEYCODE_LEFT)"
    by (simp add: scummvm_no_remap scummvm_keycodes)
  have l2: "uint (flags ?l) AND KBD_SHIFT scummvm_hdr = 0"
    by (simp add: scummvm_hdr_def)
  note l = l1 l2
  from right_notifies_always_left_on_move [OF field_env_enabled ok scummvm_labels, of ?r] r
  have a: "\<exists>w1. handleKeyDown scummvm_hdr field_env ?r (init 7 None) = Some (True, w1)
        \<and> sent w1 = [(7, 0)] \<and> caretPos w1 = 0"
    by (simp add: init_def)
  from right_notifies_always_left_on_move [OF field_env_enabled ok scummvm_labels, of ?l] l
  have b: "\<exists>w1. handleKeyDown scummvm_hdr field_env ?l (init 7 None) = Some (True, w1)
        \<and> sent w1 = [] \<and> caretPos w1 = 0"
    by (simp add: init_def)
  from a b show ?thesis by blast
qed

subsection \<open>Paste\<close>

lemma pasteChars_sent: "pasteChars cs w = Some w1 \<Longrightarrow> sent w1 = sent w"
proof (induction cs arbitrary: w)
  case Nil
  then show ?case by simp
next
  case (Cons c cs)
  from Cons.prems obtain ok w2 where
    t: "tryInsertChar (ucast c) (caretPos w) w = Some (ok, w2)" and
    p: "pasteChars cs (if ok then w2\<lparr>caretPos := caretPos w2 + 1\<rparr> else w2) = Some w1"
    by (auto split: Option.bind_splits)
  from Cons.IH [OF p] tryInsertChar_Some(2) [OF t] show ?case by (simp split: if_splits)
qed

lemma dispatch_v:
  assumes "distinct (caseLabels H)" "keycode st = Common H KEYCODE_v"
  shows "dispatch H E st w = keyV H E st w"
  using assms by (auto simp: dispatch_def caseLabels_def)

text \<open>
  Claim C3 fails on the code. A paste (ctrl+v) changes the edit string by
  \<^verbatim>\<open>tryInsertChar\<close> and returns without a call of \<^verbatim>\<open>sendCommand\<close>: whatever the
  clipboard holds, the list of notifications after the call is the list before it.
\<close>

theorem paste_sends_no_command:
  assumes "enabled E" and "distinct (caseLabels H)"
      and "remapKeypad H st = Some (Common H KEYCODE_v)"
      and "uint (flags st) AND KBD_CTRL H \<noteq> 0"
      and "handleKeyDown H E st w = Some (h, w1)"
  shows "sent w1 = sent w"
proof -
  let ?w0 = "if caretVisible w then drawCaret E True w else w"
  let ?st = "st\<lparr>keycode := Common H KEYCODE_v\<rparr>"
  from assms(1,3,5) obtain w2 d f where
    d: "dispatch H E ?st ?w0 = Some (w2, d, f, h)" and
    w1: "w1 = (let w3 = (if d then markAsDirty w2 else w2)
               in if f then makeCaretVisible E w3 else w3)"
    by (auto simp: handleKeyDown_def Let_def split: Option.bind_splits)
  from d have v: "keyV H E ?st ?w0 = Some (w2, d, f, h)"
    using dispatch_v [OF assms(2), of ?st E ?w0] by simp
  have "sent w2 = sent ?w0"
  proof (cases "clipboard ?w0")
    case None
    with v assms(4) show ?thesis by (simp add: keyV_def)
  next
    case (Some clip)
    with v assms(4) have "pasteChars (trim E clip) (initHighlight ?w0) = Some w2"
      by (auto simp: keyV_def split: Option.bind_splits)
    from pasteChars_sent [OF this] show ?thesis by simp
  qed
  then show ?thesis unfolding w1 by (simp add: Let_def)
qed

text \<open>
  ctrl+v on an empty field with the clipboard text hi: the edit string becomes hi, the
  caret moves to 2, and no notification is sent.
\<close>

theorem paste_sends_no_command_witness:
  "\<exists>w1. handleKeyDown scummvm_hdr field_env \<lparr>keycode = 118, ascii = 22, flags = 1\<rparr>
            (init 7 (Some [104, 105])) = Some (True, w1)
        \<and> editString w1 = [104, 105] \<and> caretPos w1 = 2 \<and> sent w1 = []"
proof -
  let ?st = "\<lparr>keycode = 118, ascii = 22, flags = 1\<rparr> :: KeyState"
  let ?w = "init 7 (Some [104, 105])"
  have r: "remapKeypad scummvm_hdr ?st = Some (Common scummvm_hdr KEYCODE_v)"
    by (simp add: scummvm_no_remap scummvm_keycodes)
  have c: "uint (flags ?st) AND KBD_CTRL scummvm_hdr \<noteq> 0"
    by (simp add: scummvm_hdr_def)
  have t: "trim field_env [104, 105] = [104, 105]"
    by (simp add: field_env_def trimSpaces_def isSpace_def)
  have "\<exists>w1. handleKeyDown scummvm_hdr field_env ?st ?w = Some (True, w1)
        \<and> editString w1 = [104, 105] \<and> caretPos w1 = 2"
    using c t
    by (simp add: handleKeyDown_def field_env_enabled r dispatch_v [OF scummvm_labels]
          keyV_def init_def initHighlight_def tryInsertChar_def insertChar_def
          markAsDirty_def)
  then obtain w1 where w1: "handleKeyDown scummvm_hdr field_env ?st ?w = Some (True, w1)"
      "editString w1 = [104, 105]" "caretPos w1 = 2"
    by blast
  from paste_sends_no_command [OF field_env_enabled scummvm_labels r c w1(1)]
  have "sent w1 = []" by (simp add: init_def)
  with w1 show ?thesis by blast
qed

subsection \<open>shift+Left at the start of the text\<close>

text \<open>
  Claim C8 fails on the code. With the caret and the highlight position at 0 and no
  highlight visible, shift+Left leaves the edit string, the caret and the count of
  highlighted characters as they are, but it sets \<^verbatim>\<open>_highlightVisible\<close>: the assignment
  stands before the test \<^verbatim>\<open>_highlightPos > 0\<close>.
\<close>

theorem shift_left_at_start_sets_highlight:
  assumes "enabled E" and "distinct (caseLabels H)"
      and "remapKeypad H st = Some (Common H KEYCODE_LEFT)"
      and "uint (flags st) AND KBD_SHIFT H \<noteq> 0"
      and "caretPos w = 0" and "highlightPos w = 0"
      and "highlightCharacterCount w = 0" and "\<not> highlightVisible w"
  shows "\<exists>w1. handleKeyDown H E st w = Some (True, w1)
           \<and> editString w1 = editString w \<and> caretPos w1 = 0
           \<and> highlightPos w1 = 0 \<and> highlightCharacterCount w1 = 0
           \<and> highlightVisible w1"
proof -
  let ?w0 = "if caretVisible w then drawCaret E True w else w"
  let ?st = "st\<lparr>keycode := Common H KEYCODE_LEFT\<rparr>"
  have w0: "highlightPos ?w0 = 0" "\<not> highlightVisible ?w0" "highlightCharacterCount ?w0 = 0"
    "caretPos ?w0 = 0" "editString ?w0 = editString w"
    using assms(5-8) by (simp_all add: drawCaret_def initHighlight_def)
  have "keyLeft H E ?st ?w0 = Some (?w0\<lparr>highlightVisible := True\<rparr>, True, True, True)"
    using assms(4) w0(1) by (simp add: keyLeft_def Let_def)
  then have "dispatch H E ?st ?w0 = Some (?w0\<lparr>highlightVisible := True\<rparr>, True, True, True)"
    using dispatch_LEFT [OF assms(2), of ?st E ?w0] by simp
  from handleKeyDown_after_dispatch [OF assms(1,3) this]
  have "handleKeyDown H E st w
      = Some (True, makeCaretVisible E (markAsDirty (?w0\<lparr>highlightVisible := True\<rparr>)))" .
  moreover have "highlightVisible (makeCaretVisible E (markAsDirty (?w0\<lparr>highlightVisible := True\<rparr>)))"
    "highlightPos (makeCaretVisible E (markAsDirty (?w0\<lparr>highlightVisible := True\<rparr>))) = 0"
    "highlightCharacterCount (makeCaretVisible E (markAsDirty (?w0\<lparr>highlightVisible := True\<rparr>))) = 0"
    using w0(1,3) by (simp_all add: makeCaretVisible_def drawCaret_def markAsDirty_def)
  ultimately show ?thesis using w0(4,5) by simp
qed

text \<open>
  On the text hello with the caret at 0, shift+Left makes the highlight visible with no
  character in it. The Delete key then takes the branch for a visible highlight and
  removes nothing, where before it removed the h.
\<close>

theorem shift_left_at_start_sets_highlight_witness:
  "\<exists>w1 w2 w3.
      handleKeyDown scummvm_hdr field_env \<lparr>keycode = 276, ascii = 0, flags = 4\<rparr>
          (setEditString [104, 101, 108, 108, 111] (init 7 None)) = Some (True, w1)
    \<and> editString w1 = [104, 101, 108, 108, 111] \<and> caretPos w1 = 0
    \<and> highlightCharacterCount w1 = 0 \<and> highlightVisible w1
    \<and> handleKeyDown scummvm_hdr field_env \<lparr>keycode = 127, ascii = 127, flags = 0\<rparr> w1
        = Some (True, w2)
    \<and> editString w2 = [104, 101, 108, 108, 111]
    \<and> handleKeyDown scummvm_hdr field_env \<lparr>keycode = 127, ascii = 127, flags = 0\<rparr>
          (setEditString [104, 101, 108, 108, 111] (init 7 None)) = Some (True, w3)
    \<and> editString w3 = [101, 108, 108, 111]"
proof -
  let ?st = "\<lparr>keycode = 276, ascii = 0, flags = 4\<rparr> :: KeyState"
  let ?del = "\<lparr>keycode = 127, ascii = 127, flags = 0\<rparr> :: KeyState"
  let ?w = "setEditString [104, 101, 108, 108, 111] (init 7 None)"
  have r: "remapKeypad scummvm_hdr ?st = Some (Common scummvm_hdr KEYCODE_LEFT)"
    by (simp add: scummvm_no_remap scummvm_keycodes)
  have s: "uint (flags ?st) AND KBD_SHIFT scummvm_hdr \<noteq> 0"
    by (simp add: scummvm_hdr_def)
  from shift_left_at_start_sets_highlight [OF field_env_enabled scummvm_labels r s, of ?w]
  obtain w1 where w1: "handleKeyDown scummvm_hdr field_env ?st ?w = Some (True, w1)"
      "editString w1 = [104, 101, 108, 108, 111]" "caretPos w1 = 0" "highlightPos w1 = 0"
      "highlightCharacterCount w1 = 0" "highlightVisible w1"
    by (auto simp: setEditString_def init_def)
  have l: "Common scummvm_hdr KEYCODE_RETURN = 13" "Common scummvm_hdr KEYCODE_KP_ENTER = 271"
      "Common scummvm_hdr KEYCODE_ESCAPE = 27" "Common scummvm_hdr KEYCODE_BACKSPACE = 8"
      "Common scummvm_hdr KEYCODE_DELETE = 127"
    by (simp_all add: scummvm_hdr_def)
  have d: "dispatch scummvm_hdr field_env ?del v = keyDelete field_env v" for v
    by (simp add: dispatch_def l)
  have rd: "remapKeypad scummvm_hdr ?del = Some 127"
    by (simp add: scummvm_no_remap)
  have wdt: "editRect_width field_env = 200" "getStringWidth field_env [] = 0"
    by (simp_all add: editRect_width_def field_env_def)
  have rem: "removeHighlighted v = Some v"
    if "highlightPos v = 0" "highlightCharacterCount v = 0" for v
    using that by (simp add: removeHighlighted_def)
  have "\<exists>w2. handleKeyDown scummvm_hdr field_env ?del w1 = Some (True, w2)
          \<and> editString w2 = [104, 101, 108, 108, 111]"
  proof -
    let ?v0 = "if caretVisible w1 then drawCaret field_env True w1 else w1"
    have v0: "highlightVisible ?v0" "highlightPos ?v0 = 0" "highlightCharacterCount ?v0 = 0"
      "editString ?v0 = [104, 101, 108, 108, 111]"
      using w1 by (simp_all add: drawCaret_def)
    from setCaretPos_total [of 0 ?v0 field_env] obtain q v1 where
      q: "setCaretPos field_env 0 ?v0 = Some (q, v1)" by auto
    note f = setCaretPos_Some [OF q]
    have "keyDelete field_env ?v0
        = Some (sendCommand (cmd v1) 0 (initHighlight v1), True, True, True)"
      using v0 q by (simp add: keyDelete_def deleteHighlight_def rem)
    then have "dispatch scummvm_hdr field_env (?del\<lparr>keycode := 127\<rparr>) ?v0
        = Some (sendCommand (cmd v1) 0 (initHighlight v1), True, True, True)"
      by (simp add: d)
    from handleKeyDown_after_dispatch [OF field_env_enabled rd this]
    show ?thesis using f(4) v0(4) by simp
  qed
  then obtain w2 where w2: "handleKeyDown scummvm_hdr field_env ?del w1 = Some (True, w2)"
      "editString w2 = [104, 101, 108, 108, 111]"
    by blast
  have "\<exists>w3. handleKeyDown scummvm_hdr field_env ?del ?w = Some (True, w3)
          \<and> editString w3 = [101, 108, 108, 111]"
    by (simp add: handleKeyDown_def field_env_enabled rd d keyDelete_def deleteChar_def
          setEditString_def init_def)
  then obtain w3 where w3: "handleKeyDown scummvm_hdr field_env ?del ?w = Some (True, w3)"
      "editString w3 = [101, 108, 108, 111]"
    by blast
  from w1 w2 w3 show ?thesis by blast
qed

end
